theory Spec2Isabelle
  imports Main "HOL-Library.Finite_Map"
begin

section \<open>The model transformer of the Embedded Machine Learning Library\<close>

text \<open>
  A shallow embedding of \<^verbatim>\<open>libraries/model/src/ModelTransformer.cpp\<close>: the transform
  context, the clone pass \<^verbatim>\<open>CopyModel\<close>, the refinement loop \<^verbatim>\<open>RefineModel\<close>, the
  remapping operation \<^verbatim>\<open>TransformPortElements\<close> and the diagnostic scan
  \<^verbatim>\<open>FindUncompilableNodes\<close>.  (\<^verbatim>\<open>GetCorrespondingInputNode\<close> only forwards to a template
  of the header and is left out.)

  The member variables of the C++ classes start with an underscore, which an Isabelle
  name cannot; the record fields carry the prefix \<open>m\<close> before it
  (\<^verbatim>\<open>_model\<close> is \<open>m_model\<close>).  Exceptions are values: a function that can throw returns
  \<open>error + 'a\<close>, with \<open>Inl\<close> for the exception; so are a failed assertion and the
  dereference of a null pointer.
\<close>

subsection \<open>Exceptions\<close>

text \<open>
  \<^verbatim>\<open>utilities::LogicException(LogicExceptionErrors::illegalState, msg)\<close> and
  \<^verbatim>\<open>utilities::InputException(InputExceptionErrors::invalidArgument, msg)\<close> are the two
  exceptions the file throws.  \<open>InputException_indexOutOfRange\<close> stands for what the
  element set's indexed access does beyond its size.  Two more ways a call can end are
  outcomes of their own: \<open>AssertionFailure\<close> is the abort of the process by an \<^verbatim>\<open>assert\<close>
  that fails, and \<open>NullPointerDereference\<close> is the dereference of a null pointer, whose
  behaviour C++ leaves undefined.
\<close>

datatype error =
    LogicException_illegalState string
  | InputException_invalidArgument string
  | InputException_indexOutOfRange
  | AssertionFailure
  | NullPointerDereference

subsection \<open>Output handles, element references and element sets\<close>

text \<open>
  Modelled from the spec: the Output Handle (\<^verbatim>\<open>OutputPortBase\<close>, declared in a header of
  the library) has a node id, a name, a type tag and an element count.  A C++ pointer to
  an output handle is modelled by the handle itself: two pointers are equal exactly when
  they name the same output of the same node.
\<close>

record OutputPortBase =
  GetNode :: nat
  GetName :: string
  GetType :: nat
  Size :: nat

text \<open>
  Modelled from the spec: the Element Reference (\<^verbatim>\<open>PortElementBase\<close>) is an output handle
  and an index.  The source default-constructs one (\<^verbatim>\<open>operator[]\<close> of the element map on
  a missing key), so the handle can be null: \<open>None\<close>.
\<close>

datatype PortElementBase =
  PortElementBase (ReferencedPort: "OutputPortBase option") (GetIndex: nat)

definition PortElementBase_default :: PortElementBase where
  "PortElementBase_default = PortElementBase None 0"

text \<open>
  Modelled from the spec: the Element Set (\<^verbatim>\<open>PortElementsBase\<close>) is an ordered sequence of
  range entries, each a run of contiguous indices of one output handle.  The element set
  of a whole output is the one range of all its elements.
\<close>

datatype PortRange =
  PortRange (RangePort: "OutputPortBase option") (GetStartIndex: nat) (RangeSize: nat)

type_synonym PortElementsBase = "PortRange list"

definition PortRange_of_port :: "OutputPortBase \<Rightarrow> PortRange" where
  "PortRange_of_port port = PortRange (Some port) 0 (Size port)"

definition PortElementsBase_of_port :: "OutputPortBase \<Rightarrow> PortElementsBase" where
  "PortElementsBase_of_port port = [PortRange_of_port port]"

text \<open>Modelled from the spec: the size query counts the referenced elements.\<close>

definition Size_elements :: "PortElementsBase \<Rightarrow> nat" where
  "Size_elements elements = sum_list (map RangeSize elements)"

text \<open>
  Modelled from the spec: indexed access into the sequence of referenced elements.  An
  index beyond the size is an error.
\<close>

fun GetElement :: "PortElementsBase \<Rightarrow> nat \<Rightarrow> error + PortElementBase" where
  "GetElement [] index = Inl InputException_indexOutOfRange"
| "GetElement (r # rs) index =
     (if index < RangeSize r then Inr (PortElementBase (RangePort r) (GetStartIndex r + index))
      else GetElement rs (index - RangeSize r))"

text \<open>Modelled from the spec: \<open>Append\<close> adds one entry at the end.\<close>

definition Append :: "PortElementsBase \<Rightarrow> PortRange \<Rightarrow> PortElementsBase" where
  "Append elements r = elements @ [r]"

text \<open>
  Modelled from the spec: \<open>Consolidate\<close> merges adjacent entries that reference the same
  output handle at contiguous indices into a single range entry.
\<close>

fun Consolidate :: "PortElementsBase \<Rightarrow> PortElementsBase" where
  "Consolidate (r1 # r2 # rs) =
     (if RangePort r1 = RangePort r2 \<and> GetStartIndex r1 + RangeSize r1 = GetStartIndex r2
      then Consolidate (PortRange (RangePort r1) (GetStartIndex r1) (RangeSize r1 + RangeSize r2) # rs)
      else r1 # Consolidate (r2 # rs))"
| "Consolidate rs = rs"

text \<open>The logical sequence of element references an element set stands for.\<close>

definition range_elements :: "PortRange \<Rightarrow> PortElementBase list" where
  "range_elements r =
     map (\<lambda>i. PortElementBase (RangePort r) (GetStartIndex r + i)) [0..<RangeSize r]"

definition elements_of :: "PortElementsBase \<Rightarrow> PortElementBase list" where
  "elements_of elements = concat (map range_elements elements)"

subsection \<open>Nodes and models\<close>

text \<open>
  Modelled from the spec: a Node has an identity, a kind tag (\<^verbatim>\<open>GetRuntimeTypeName\<close>), input
  element sets and the output handles it owns.  A Model is its node sequence in
  dependency order; \<open>Model_empty\<close> is \<^verbatim>\<open>Model()\<close>.
\<close>

record Node =
  GetId :: nat
  GetRuntimeTypeName :: string
  GetInputs :: "PortElementsBase list"
  GetOutputs :: "OutputPortBase list"

type_synonym Model = "Node list"

definition Model_empty :: Model where
  "Model_empty = []"

text \<open>
  Modelled from the spec: \<open>Visit\<close> (and the node iterator, \<^verbatim>\<open>GetNodeIterator\<close>) traverses the
  nodes in dependency order, every node after the nodes whose outputs it consumes.  A
  visitor that throws ends the traversal.
\<close>

fun Visit :: "(Node \<Rightarrow> 's \<Rightarrow> error + 's) \<Rightarrow> Model \<Rightarrow> 's \<Rightarrow> error + 's" where
  "Visit visitor [] s = Inr s"
| "Visit visitor (node # nodes) s =
     (case visitor node s of
        Inl e \<Rightarrow> Inl e
      | Inr s' \<Rightarrow> Visit visitor nodes s')"

subsection \<open>TransformContext\<close>

record TransformContext =
  m_isNodeCompilableFunction :: "Node \<Rightarrow> bool"

definition TransformContext_default :: TransformContext where
  "TransformContext_default = \<lparr>m_isNodeCompilableFunction = (\<lambda>node. False)\<rparr>"

definition TransformContext_of :: "(Node \<Rightarrow> bool) \<Rightarrow> TransformContext" where
  "TransformContext_of isNodeCompilable = \<lparr>m_isNodeCompilableFunction = isNodeCompilable\<rparr>"

definition IsNodeCompilable :: "TransformContext \<Rightarrow> Node \<Rightarrow> bool" where
  "IsNodeCompilable context node = m_isNodeCompilableFunction context node"

subsection \<open>ModelTransformer\<close>

text \<open>
  The transformer's members.  \<open>nextId\<close> is not a member: it is the process-wide counter
  that node construction draws identities from, carried in the state because the nodes'
  operations (which construct nodes) receive the transformer and nothing else.
\<close>

record ModelTransformer =
  m_model :: Model
  m_context :: TransformContext
  m_elementToElementMap :: "(PortElementBase, PortElementBase) fmap"
  m_isModelCompilable :: bool
  nextId :: nat

text \<open>
  \<^verbatim>\<open>Node::InvokeCopy\<close> and \<^verbatim>\<open>Node::InvokeRefine\<close> are virtual and defined per node kind,
  in other files of the library: the transformer's operations take them as parameters.
  Each receives the node and the transformer, and either throws or returns the
  transformer it has updated (and, for \<^verbatim>\<open>InvokeRefine\<close>, whether the node refined).
\<close>

type_synonym InvokeCopy_fn = "Node \<Rightarrow> ModelTransformer \<Rightarrow> error + ModelTransformer"
type_synonym InvokeRefine_fn = "Node \<Rightarrow> ModelTransformer \<Rightarrow> error + (bool \<times> ModelTransformer)"

text \<open>
  \<^verbatim>\<open>TransformPortElements\<close>, lines 114 to 133.  The loop runs \<open>index\<close> from 0 to the size of
  the input.  The \<^verbatim>\<open>assert\<close> of line 122 is compiled in unless the macro \<^verbatim>\<open>NDEBUG\<close> is
  defined when the file is compiled: the parameter \<open>NDEBUG\<close> says whether it is.  With the
  assertion compiled in, a missing key aborts the process at line 122; with it compiled
  out, line 125 throws.  Lines 128 and 129 dereference the handle of the image: a null
  handle there is undefined behaviour.
\<close>

function TransformPortElements_loop ::
  "bool \<Rightarrow> (PortElementBase, PortElementBase) fmap \<Rightarrow> PortElementsBase \<Rightarrow> nat \<Rightarrow> nat \<Rightarrow>
   PortElementsBase \<Rightarrow> error + PortElementsBase" where
  "TransformPortElements_loop NDEBUG m elements sz index result =
     (if index < sz then
        (case GetElement elements index of
           Inl e \<Rightarrow> Inl e
         | Inr oldElement \<Rightarrow>
             (if \<not> NDEBUG \<and> fmlookup m oldElement = None then Inl AssertionFailure
              else
                (case fmlookup m oldElement of
                   None \<Rightarrow>
                     Inl (InputException_invalidArgument ''Could not find element in new model.'')
                 | Some newElement \<Rightarrow>
                     (case ReferencedPort newElement of
                        None \<Rightarrow> Inl NullPointerDereference
                      | Some newPort \<Rightarrow>
                          TransformPortElements_loop NDEBUG m elements sz (index + 1)
                            (Append result (PortRange (Some newPort) (GetIndex newElement) 1))))))
      else Inr result)"
  by pat_completeness auto
termination
  by (relation "measure (\<lambda>(NDEBUG, m, elements, sz, index, result). sz - index)") auto

definition TransformPortElements ::
  "bool \<Rightarrow> ModelTransformer \<Rightarrow> PortElementsBase \<Rightarrow> error + PortElementsBase" where
  "TransformPortElements NDEBUG t elements =
     (let sz = Size_elements elements in
      case TransformPortElements_loop NDEBUG (m_elementToElementMap t) elements sz 0 [] of
        Inl e \<Rightarrow> Inl e
      | Inr result \<Rightarrow> Inr (Consolidate result))"

text \<open>\<^verbatim>\<open>GetCorrespondingOutputs\<close>, both overloads, lines 135 to 143.\<close>

definition GetCorrespondingOutputs ::
  "bool \<Rightarrow> ModelTransformer \<Rightarrow> PortElementsBase \<Rightarrow> error + PortElementsBase" where
  "GetCorrespondingOutputs NDEBUG t elements = TransformPortElements NDEBUG t elements"

definition GetCorrespondingOutputs_port ::
  "bool \<Rightarrow> ModelTransformer \<Rightarrow> OutputPortBase \<Rightarrow> error + PortElementsBase" where
  "GetCorrespondingOutputs_port NDEBUG t port = GetCorrespondingOutputs NDEBUG t (PortElementsBase_of_port port)"

text \<open>\<^verbatim>\<open>FindUncompilableNodes\<close>, lines 150 to 165.\<close>

fun FindUncompilableNodes :: "Model \<Rightarrow> TransformContext \<Rightarrow> Node list" where
  "FindUncompilableNodes [] context = []"
| "FindUncompilableNodes (node # nodes) context =
     (if \<not> IsNodeCompilable context node then node # FindUncompilableNodes nodes context
      else FindUncompilableNodes nodes context)"

text \<open>\<^verbatim>\<open>CopyModel\<close>, lines 42 to 51.  The result is the returned model and the transformer.\<close>

definition CopyModel ::
  "InvokeCopy_fn \<Rightarrow> Model \<Rightarrow> TransformContext \<Rightarrow> ModelTransformer \<Rightarrow>
   error + (Model \<times> ModelTransformer)" where
  "CopyModel InvokeCopy oldModel context t =
     (let t1 = t\<lparr>m_context := context\<rparr>;
          t2 = t1\<lparr>m_model := Model_empty\<rparr>;
          t3 = t2\<lparr>m_elementToElementMap := fmempty\<rparr>
      in case Visit InvokeCopy oldModel t3 of
           Inl e \<Rightarrow> Inl e
         | Inr t4 \<Rightarrow>
             (let t5 = t4\<lparr>m_context := TransformContext_default\<rparr>
              in Inr (m_model t5, t5)))"

text \<open>
  \<^verbatim>\<open>std::to_string\<close> on an \<^verbatim>\<open>int\<close>: the decimal digits, with a minus sign for a negative
  number.
\<close>

definition digit_char :: "nat \<Rightarrow> char" where
  "digit_char d =
     (if d = 0 then CHR ''0'' else if d = 1 then CHR ''1'' else if d = 2 then CHR ''2''
      else if d = 3 then CHR ''3'' else if d = 4 then CHR ''4'' else if d = 5 then CHR ''5''
      else if d = 6 then CHR ''6'' else if d = 7 then CHR ''7'' else if d = 8 then CHR ''8''
      else CHR ''9'')"

fun digits :: "nat \<Rightarrow> string" where
  "digits n = (if n < 10 then [digit_char n] else digits (n div 10) @ [digit_char (n mod 10)])"

definition to_string :: "int \<Rightarrow> string" where
  "to_string i = (if i < 0 then CHR ''-'' # digits (nat (- i)) else digits (nat i))"

text \<open>
  \<^verbatim>\<open>RefineModel\<close>, lines 53 to 112.  \<^verbatim>\<open>maxRefinementIterations\<close> is a constant of the class
  declared in the header, and a parameter here.

  Lines 82 to 87, the concatenation of the port maps: every key of the previous map is
  kept, with the image of its old image under the map of the pass just run.  The image
  is read with \<^verbatim>\<open>operator[]\<close>, which default-constructs the value of a missing key; the
  entries this inserts into the map of the pass are lost when line 87 overwrites it.
\<close>

definition index_or_default ::
  "(PortElementBase, PortElementBase) fmap \<Rightarrow> PortElementBase \<Rightarrow> PortElementBase" where
  "index_or_default m key =
     (case fmlookup m key of None \<Rightarrow> PortElementBase_default | Some v \<Rightarrow> v)"

definition newElementToElementMap ::
  "(PortElementBase, PortElementBase) fmap \<Rightarrow> (PortElementBase, PortElementBase) fmap \<Rightarrow>
   (PortElementBase, PortElementBase) fmap" where
  "newElementToElementMap currentElementToElementMap passMap =
     fmmap (index_or_default passMap) currentElementToElementMap"

text \<open>The visitor of lines 74 to 77; the state it updates is \<open>didRefineAny\<close> and the transformer.\<close>

definition refine_visitor ::
  "InvokeRefine_fn \<Rightarrow> Node \<Rightarrow> bool \<times> ModelTransformer \<Rightarrow> error + (bool \<times> ModelTransformer)" where
  "refine_visitor InvokeRefine node s =
     (case InvokeRefine node (snd s) of
        Inl e \<Rightarrow> Inl e
      | Inr (didRefineNode, t') \<Rightarrow> Inr (fst s \<or> didRefineNode, t'))"

text \<open>
  Lines 64 to 88, one generation: the pass over the current model and the concatenation
  of the maps.  The result is \<open>didRefineAny\<close> and the transformer.
\<close>

definition RefinePass ::
  "InvokeRefine_fn \<Rightarrow> ModelTransformer \<Rightarrow> error + (bool \<times> ModelTransformer)" where
  "RefinePass InvokeRefine t =
     (let currentModel = m_model t;
          t1 = t\<lparr>m_model := Model_empty\<rparr>;
          currentElementToElementMap = m_elementToElementMap t1;
          t2 = t1\<lparr>m_elementToElementMap := fmempty\<rparr>;
          t3 = t2\<lparr>m_isModelCompilable := True\<rparr>
      in case Visit (refine_visitor InvokeRefine) currentModel (False, t3) of
           Inl e \<Rightarrow> Inl e
         | Inr (didRefineAny, t4) \<Rightarrow>
             (if fmdom currentElementToElementMap \<noteq> {||}
              then Inr (didRefineAny,
                        t4\<lparr>m_elementToElementMap :=
                             newElementToElementMap currentElementToElementMap
                               (m_elementToElementMap t4)\<rparr>)
              else Inr (didRefineAny, t4)))"

definition firstUncompilableNodeName :: "Model \<Rightarrow> TransformContext \<Rightarrow> string" where
  "firstUncompilableNodeName currentModel context =
     (case FindUncompilableNodes currentModel context of
        [] \<Rightarrow> []
      | node # _ \<Rightarrow> GetRuntimeTypeName node)"

definition refinement_message :: "int \<Rightarrow> string \<Rightarrow> string" where
  "refinement_message maxRefinementIterations name =
     ''More than '' @ to_string maxRefinementIterations @
     '' refinement iterations, first uncompilable node: '' @ name"

function RefineModel_loop ::
  "InvokeRefine_fn \<Rightarrow> int \<Rightarrow> TransformContext \<Rightarrow> int \<Rightarrow> ModelTransformer \<Rightarrow>
   error + ModelTransformer" where
  "RefineModel_loop InvokeRefine maxRefinementIterations context iterationCount t =
     (case RefinePass InvokeRefine t of
        Inl e \<Rightarrow> Inl e
      | Inr (didRefineAny, t') \<Rightarrow>
          (if \<not> didRefineAny then Inr t'
           else if iterationCount + 1 \<ge> maxRefinementIterations
           then Inl (LogicException_illegalState
                       (refinement_message maxRefinementIterations
                          (firstUncompilableNodeName (m_model t) context)))
           else if \<not> m_isModelCompilable t'
           then RefineModel_loop InvokeRefine maxRefinementIterations context (iterationCount + 1) t'
           else Inr t'))"
  by pat_completeness auto
termination
  by (relation "measure (\<lambda>(InvokeRefine, maxRefinementIterations, context, iterationCount, t).
                   nat (maxRefinementIterations - iterationCount))") auto

definition RefineModel ::
  "InvokeRefine_fn \<Rightarrow> int \<Rightarrow> Model \<Rightarrow> TransformContext \<Rightarrow> ModelTransformer \<Rightarrow>
   error + (Model \<times> ModelTransformer)" where
  "RefineModel InvokeRefine maxRefinementIterations oldModel context t =
     (let t1 = t\<lparr>m_context := context\<rparr>;
          t2 = t1\<lparr>m_model := oldModel\<rparr>
      in case RefineModel_loop InvokeRefine maxRefinementIterations context 0 t2 of
           Inl e \<Rightarrow> Inl e
         | Inr t3 \<Rightarrow>
             (let t4 = t3\<lparr>m_context := TransformContext_default\<rparr>
              in Inr (m_model t4, t4)))"

subsection \<open>The nodes' contract\<close>

text \<open>
  Modelled from the spec: the transformer's \<^verbatim>\<open>AddNode\<close> (a template of the header) inserts
  the node into the target model and tracks whether the context accepts it.
\<close>

definition AddNode :: "Node \<Rightarrow> ModelTransformer \<Rightarrow> ModelTransformer" where
  "AddNode node t =
     t\<lparr>m_model := m_model t @ [node],
       m_isModelCompilable := (m_isModelCompilable t \<and> IsNodeCompilable (m_context t) node)\<rparr>"

text \<open>
  Modelled from the spec: the transformer's \<^verbatim>\<open>MapNodeOutput\<close> (a template of the header)
  registers the elements of a new output handle as the images of the elements of an old
  one, index by index.
\<close>

definition MapNodeOutput ::
  "OutputPortBase \<Rightarrow> OutputPortBase \<Rightarrow> ModelTransformer \<Rightarrow> ModelTransformer" where
  "MapNodeOutput oldPort newPort t =
     t\<lparr>m_elementToElementMap :=
          fold (\<lambda>i m. fmupd (PortElementBase (Some oldPort) i) (PortElementBase (Some newPort) i) m)
            [0..<Size oldPort] (m_elementToElementMap t)\<rparr>"

text \<open>
  Modelled from the spec: Copy-into remaps the node's input element sets with
  \<open>TransformPortElements\<close>, constructs a node of the same kind on the remapped inputs in
  the target model, and maps each old output onto the new node's output at the same
  position.  It is compiled with or without assertions, as the transformer is.
\<close>

fun TransformInputs ::
  "bool \<Rightarrow> ModelTransformer \<Rightarrow> PortElementsBase list \<Rightarrow> error + PortElementsBase list" where
  "TransformInputs NDEBUG t [] = Inr []"
| "TransformInputs NDEBUG t (input # inputs) =
     (case TransformPortElements NDEBUG t input of
        Inl e \<Rightarrow> Inl e
      | Inr newInput \<Rightarrow>
          (case TransformInputs NDEBUG t inputs of
             Inl e \<Rightarrow> Inl e
           | Inr newInputs \<Rightarrow> Inr (newInput # newInputs)))"

definition Copy_into :: "bool \<Rightarrow> InvokeCopy_fn" where
  "Copy_into NDEBUG node t =
     (case TransformInputs NDEBUG t (GetInputs node) of
        Inl e \<Rightarrow> Inl e
      | Inr newInputs \<Rightarrow>
          (let newId = nextId t;
               newOutputs = map (\<lambda>port. port\<lparr>GetNode := newId\<rparr>) (GetOutputs node);
               newNode = \<lparr>GetId = newId, GetRuntimeTypeName = GetRuntimeTypeName node,
                          GetInputs = newInputs, GetOutputs = newOutputs\<rparr>;
               t1 = AddNode newNode (t\<lparr>nextId := newId + 1\<rparr>)
           in Inr (fold (\<lambda>(oldPort, newPort). MapNodeOutput oldPort newPort)
                     (zip (GetOutputs node) newOutputs) t1)))"

text \<open>
  Modelled from the spec: the Refine-into of a node kind that never refines behaves exactly
  like Copy-into and reports "no change".
\<close>

definition Refine_no_change :: "bool \<Rightarrow> InvokeRefine_fn" where
  "Refine_no_change NDEBUG node t =
     (case Copy_into NDEBUG node t of
        Inl e \<Rightarrow> Inl e
      | Inr t' \<Rightarrow> Inr (False, t'))"

subsection \<open>Well-formed models and the clone of a model\<close>

text \<open>
  The invariants of a Model: node identities are unique, every output handle names the
  node that owns it, the outputs of a node have different names, and every input element
  reference resolves to an output element of a node earlier in the dependency order
  (which makes the model acyclic).
\<close>

definition output_elements :: "Node \<Rightarrow> PortElementBase list" where
  "output_elements node =
     concat (map (\<lambda>port. map (PortElementBase (Some port)) [0..<Size port]) (GetOutputs node))"

definition owns_outputs :: "Node \<Rightarrow> bool" where
  "owns_outputs node = list_all (\<lambda>port. GetNode port = GetId node) (GetOutputs node)"

fun no_forward_references :: "Node list \<Rightarrow> Node list \<Rightarrow> bool" where
  "no_forward_references earlier [] = True"
| "no_forward_references earlier (node # nodes) =
     (list_all (\<lambda>input. list_all (\<lambda>e. e \<in> set (concat (map output_elements earlier)))
                          (elements_of input)) (GetInputs node) \<and>
      no_forward_references (earlier @ [node]) nodes)"

definition wf_Model :: "Model \<Rightarrow> bool" where
  "wf_Model m =
     (distinct (map GetId m) \<and> list_all owns_outputs m \<and>
      list_all (\<lambda>node. distinct (map GetName (GetOutputs node))) m \<and>
      no_forward_references [] m)"

text \<open>
  The clone of a model under a renaming \<open>\<rho>\<close> of node identities: every node keeps its
  kind, its outputs (now owned by the new identity) and its inputs, which reference the
  renamed outputs and are consolidated.  \<open>new_id m base\<close> is the renaming that numbers the
  nodes of \<open>m\<close> from \<open>base\<close> in dependency order.
\<close>

fun position :: "nat \<Rightarrow> Node list \<Rightarrow> nat" where
  "position a [] = 0"
| "position a (node # nodes) = (if GetId node = a then 0 else Suc (position a nodes))"

definition new_id :: "Model \<Rightarrow> nat \<Rightarrow> nat \<Rightarrow> nat" where
  "new_id m base a = base + position a m"

definition rename_port :: "(nat \<Rightarrow> nat) \<Rightarrow> OutputPortBase \<Rightarrow> OutputPortBase" where
  "rename_port \<rho> port = port\<lparr>GetNode := \<rho> (GetNode port)\<rparr>"

definition rename_element :: "(nat \<Rightarrow> nat) \<Rightarrow> PortElementBase \<Rightarrow> PortElementBase" where
  "rename_element \<rho> e = PortElementBase (map_option (rename_port \<rho>) (ReferencedPort e)) (GetIndex e)"

definition PortRange_of_element :: "PortElementBase \<Rightarrow> PortRange" where
  "PortRange_of_element e = PortRange (ReferencedPort e) (GetIndex e) 1"

definition rename_elements :: "(nat \<Rightarrow> nat) \<Rightarrow> PortElementsBase \<Rightarrow> PortElementsBase" where
  "rename_elements \<rho> elements =
     Consolidate (map (\<lambda>e. PortRange_of_element (rename_element \<rho> e)) (elements_of elements))"

definition clone_node :: "(nat \<Rightarrow> nat) \<Rightarrow> Node \<Rightarrow> Node" where
  "clone_node \<rho> node =
     \<lparr>GetId = \<rho> (GetId node), GetRuntimeTypeName = GetRuntimeTypeName node,
      GetInputs = map (rename_elements \<rho>) (GetInputs node),
      GetOutputs = map (rename_port \<rho>) (GetOutputs node)\<rparr>"

text \<open>
  The state of a clone pass that has processed the nodes \<open>ps\<close>: the target model holds
  their clones and the element map sends each of their output elements to its image.
\<close>

definition copied :: "(nat \<Rightarrow> nat) \<Rightarrow> Node list \<Rightarrow> ModelTransformer \<Rightarrow> bool" where
  "copied \<rho> ps t =
     (m_model t = map (clone_node \<rho>) ps \<and>
      (\<forall>e \<in> set (concat (map output_elements ps)).
         fmlookup (m_elementToElementMap t) e = Some (rename_element \<rho> e)))"

subsection \<open>A node kind that refines by levels\<close>

text \<open>
  A synthetic node kind whose kind name carries its remaining refinement depth, one
  character per level.  Refine-into replaces a node of a non-empty kind name by one node
  of the kind one level down, on the remapped inputs, maps the old outputs onto the new
  node's outputs and reports "changed"; a node of the empty kind name is terminal and is
  copied.  The context \<open>accept_terminal\<close> accepts the terminal kind only.
\<close>

definition Refine_by_level :: "bool \<Rightarrow> InvokeRefine_fn" where
  "Refine_by_level NDEBUG node t =
     (if GetRuntimeTypeName node = [] then Refine_no_change NDEBUG node t
      else (case Copy_into NDEBUG (node\<lparr>GetRuntimeTypeName := tl (GetRuntimeTypeName node)\<rparr>) t of
              Inl e \<Rightarrow> Inl e
            | Inr t' \<Rightarrow> Inr (True, t')))"

definition accept_terminal :: TransformContext where
  "accept_terminal = TransformContext_of (\<lambda>node. GetRuntimeTypeName node = [])"

subsection \<open>Example models and transformers\<close>

definition input_port :: OutputPortBase where
  "input_port = \<lparr>GetNode = 0, GetName = ''output'', GetType = 1, Size = 2\<rparr>"

definition sum_port :: OutputPortBase where
  "sum_port = \<lparr>GetNode = 1, GetName = ''output'', GetType = 1, Size = 1\<rparr>"

definition input_node :: Node where
  "input_node = \<lparr>GetId = 0, GetRuntimeTypeName = ''InputNode'', GetInputs = [],
                  GetOutputs = [input_port]\<rparr>"

definition sum_node :: Node where
  "sum_node = \<lparr>GetId = 1, GetRuntimeTypeName = ''SumNode'',
                GetInputs = [[PortRange (Some input_port) 0 2]], GetOutputs = [sum_port]\<rparr>"

definition example_model :: Model where
  "example_model = [input_node, sum_node]"

text \<open>One node of the kind that refines by levels, with one output of one element.\<close>

definition level_port :: OutputPortBase where
  "level_port = \<lparr>GetNode = 0, GetName = ''output'', GetType = 1, Size = 1\<rparr>"

definition level_node :: "string \<Rightarrow> Node" where
  "level_node kind = \<lparr>GetId = 0, GetRuntimeTypeName = kind, GetInputs = [],
                       GetOutputs = [level_port]\<rparr>"

text \<open>
  A transformer that has not run yet (the node identities 0 and 1 are taken by the
  example models), the same transformer after a \<open>CopyModel\<close> call, and that one with its
  element map emptied.
\<close>

definition fresh_transformer :: ModelTransformer where
  "fresh_transformer =
     \<lparr>m_model = Model_empty, m_context = TransformContext_default,
      m_elementToElementMap = fmempty, m_isModelCompilable = False, nextId = 2\<rparr>"

definition transformer_after_copy :: "bool \<Rightarrow> Model \<Rightarrow> ModelTransformer" where
  "transformer_after_copy NDEBUG m =
     (case CopyModel (Copy_into NDEBUG) m TransformContext_default fresh_transformer of
        Inl e \<Rightarrow> fresh_transformer
      | Inr (newModel, t) \<Rightarrow> t)"

definition with_empty_map :: "ModelTransformer \<Rightarrow> ModelTransformer" where
  "with_empty_map t = t\<lparr>m_elementToElementMap := fmempty\<rparr>"

text \<open>What a call leaves to its caller: the exception, the model, the image of an element.\<close>

definition thrown :: "error + 'a \<Rightarrow> error option" where
  "thrown r = (case r of Inl e \<Rightarrow> Some e | Inr x \<Rightarrow> None)"

definition returned_model :: "error + (Model \<times> ModelTransformer) \<Rightarrow> Model option" where
  "returned_model r = (case r of Inl e \<Rightarrow> None | Inr (newModel, t) \<Rightarrow> Some newModel)"

definition exposed_image ::
  "error + (Model \<times> ModelTransformer) \<Rightarrow> PortElementBase \<Rightarrow> PortElementBase option" where
  "exposed_image r e =
     (case r of Inl err \<Rightarrow> None | Inr (newModel, t) \<Rightarrow> fmlookup (m_elementToElementMap t) e)"

text \<open>
  The transformer after \<open>n\<close> generations in a row (a generation that throws leaves it
  where it was), and what a generation reports.
\<close>

fun generations :: "InvokeRefine_fn \<Rightarrow> nat \<Rightarrow> ModelTransformer \<Rightarrow> ModelTransformer" where
  "generations InvokeRefine 0 t = t"
| "generations InvokeRefine (Suc n) t =
     (case RefinePass InvokeRefine (generations InvokeRefine n t) of
        Inl e \<Rightarrow> generations InvokeRefine n t
      | Inr (didRefineAny, t') \<Rightarrow> t')"

definition pass_changed :: "error + (bool \<times> ModelTransformer) \<Rightarrow> bool option" where
  "pass_changed r = (case r of Inl e \<Rightarrow> None | Inr (didRefineAny, t) \<Rightarrow> Some didRefineAny)"

definition pass_compilable :: "error + (bool \<times> ModelTransformer) \<Rightarrow> bool option" where
  "pass_compilable r =
     (case r of Inl e \<Rightarrow> None | Inr (didRefineAny, t) \<Rightarrow> Some (m_isModelCompilable t))"

text \<open>The transformer as \<open>RefineModel\<close> enters its loop on a node ten levels deep.\<close>

definition ten_level_entry :: ModelTransformer where
  "ten_level_entry =
     fresh_transformer\<lparr>m_context := accept_terminal, m_model := [level_node ''dddddddddd'']\<rparr>"

text \<open>
  The transformer after a \<open>CopyModel\<close> call and a \<open>RefineModel\<close> call on the example
  model, and the transformer as that \<open>RefineModel\<close> call enters its loop.
\<close>

definition transformer_after_copy_and_refine :: "bool \<Rightarrow> ModelTransformer" where
  "transformer_after_copy_and_refine NDEBUG =
     (case RefineModel (Refine_no_change NDEBUG) 10 example_model accept_terminal
             (transformer_after_copy NDEBUG example_model) of
        Inl e \<Rightarrow> fresh_transformer
      | Inr (newModel, t) \<Rightarrow> t)"

definition stale_entry :: "bool \<Rightarrow> ModelTransformer" where
  "stale_entry NDEBUG = (transformer_after_copy NDEBUG example_model)\<lparr>m_model := example_model\<rparr>"


section \<open>Element sets\<close>

declare TransformPortElements_loop.simps [simp del]
declare RefineModel_loop.simps [simp del]

lemma Size_elements_length: "Size_elements es = length (elements_of es)"
  by (induction es) (simp_all add: Size_elements_def elements_of_def range_elements_def)

lemma elements_of_Cons: "elements_of (r # rs) = range_elements r @ elements_of rs"
  by (simp add: elements_of_def)

lemma length_range_elements: "length (range_elements r) = RangeSize r"
  by (simp add: range_elements_def)

lemma GetElement_nth:
  "i < length (elements_of es) \<Longrightarrow> GetElement es i = Inr (elements_of es ! i)"
proof (induction es arbitrary: i)
  case Nil
  then show ?case by (simp add: elements_of_def)
next
  case (Cons r rs)
  show ?case
  proof (cases "i < RangeSize r")
    case True
    then show ?thesis
      by (simp add: elements_of_Cons nth_append length_range_elements)
         (simp add: range_elements_def)
  next
    case False
    with Cons.prems have "i - RangeSize r < length (elements_of rs)"
      by (simp add: elements_of_Cons length_range_elements)
    with False Cons.IH show ?thesis
      by (simp add: elements_of_Cons nth_append length_range_elements)
  qed
qed

lemma range_elements_merge:
  "range_elements (PortRange p s n) @ range_elements (PortRange p (s + n) k) =
   range_elements (PortRange p s (n + k))"
proof -
  have "[0..<n + k] = [0..<n] @ map (\<lambda>i. i + n) [0..<k]"
    by (metis add.commute map_add_upt upt_add_eq_append zero_le)
  then show ?thesis
    by (simp add: range_elements_def add.assoc add.commute o_def)
qed

lemma elements_of_Consolidate: "elements_of (Consolidate es) = elements_of es"
proof (induction es rule: Consolidate.induct)
  case (1 r1 r2 rs)
  show ?case
  proof (cases "RangePort r1 = RangePort r2 \<and> GetStartIndex r1 + RangeSize r1 = GetStartIndex r2")
    case True
    have "range_elements r1 @ range_elements r2 =
          range_elements (PortRange (RangePort r1) (GetStartIndex r1) (RangeSize r1 + RangeSize r2))"
      using True range_elements_merge [of "RangePort r1" "GetStartIndex r1" "RangeSize r1" "RangeSize r2"]
      by (cases r1; cases r2) simp
    with True 1 show ?thesis by (simp add: elements_of_Cons)
  next
    case False
    with 1 show ?thesis by (auto simp add: elements_of_Cons)
  qed
qed (simp_all)

lemma TransformPortElements_loop_found:
  assumes "sz = length (elements_of es)" "index \<le> sz"
    "\<forall>e \<in> set (drop index (elements_of es)).
       \<exists>new port. fmlookup m e = Some new \<and> ReferencedPort new = Some port"
  shows "TransformPortElements_loop NDEBUG m es sz index result =
         Inr (result @ map (\<lambda>e. PortRange (ReferencedPort (index_or_default m e)) (GetIndex (index_or_default m e)) 1)
                        (drop index (elements_of es)))"
  using assms
proof (induction NDEBUG m es sz index result rule: TransformPortElements_loop.induct)
  case (1 NDEBUG m elements sz index result)
  show ?case
  proof (cases "index < sz")
    case False
    with 1 show ?thesis by (simp add: TransformPortElements_loop.simps)
  next
    case True
    let ?e = "elements_of elements ! index"
    have get: "GetElement elements index = Inr ?e"
      using True "1.prems" by (simp add: GetElement_nth)
    have dr: "drop index (elements_of elements) = ?e # drop (Suc index) (elements_of elements)"
      using True "1.prems" by (simp add: Cons_nth_drop_Suc)
    from dr "1.prems"(3) obtain new port where new: "fmlookup m ?e = Some new"
      and port: "ReferencedPort new = Some port"
      by auto
    have asserted: "\<not> (\<not> NDEBUG \<and> fmlookup m ?e = None)" using new by simp
    have rest: "\<forall>e \<in> set (drop (index + 1) (elements_of elements)).
                  \<exists>new port. fmlookup m e = Some new \<and> ReferencedPort new = Some port"
      using "1.prems"(3) dr by simp
    have "TransformPortElements_loop NDEBUG m elements sz index result =
          TransformPortElements_loop NDEBUG m elements sz (index + 1)
            (Append result (PortRange (Some port) (GetIndex new) 1))"
      using True get new port by (subst TransformPortElements_loop.simps) simp
    also have "\<dots> = Inr (Append result (PortRange (Some port) (GetIndex new) 1) @
          map (\<lambda>e. PortRange (ReferencedPort (index_or_default m e)) (GetIndex (index_or_default m e)) 1)
            (drop (index + 1) (elements_of elements)))"
      using "1.IH" [OF True get asserted new port "1.prems"(1) _ rest] True by simp
    finally show ?thesis
      using dr new port by (simp add: Append_def index_or_default_def)
  qed
qed

lemma TransformPortElements_loop_fails:
  assumes "sz = length (elements_of es)" "index \<le> sz"
    "\<exists>e \<in> set (drop index (elements_of es)). fmlookup m e = None"
  shows "\<exists>err. TransformPortElements_loop NDEBUG m es sz index result = Inl err"
  using assms
proof (induction NDEBUG m es sz index result rule: TransformPortElements_loop.induct)
  case (1 NDEBUG m elements sz index result)
  have lt: "index < sz"
  proof (rule ccontr)
    assume "\<not> index < sz"
    with "1.prems" have "drop index (elements_of elements) = []" by simp
    with "1.prems"(3) show False by simp
  qed
  let ?e = "elements_of elements ! index"
  have get: "GetElement elements index = Inr ?e"
    using lt "1.prems" by (simp add: GetElement_nth)
  have dr: "drop index (elements_of elements) = ?e # drop (Suc index) (elements_of elements)"
    using lt "1.prems" by (simp add: Cons_nth_drop_Suc)
  show ?case
  proof (cases "fmlookup m ?e")
    case None
    with lt get show ?thesis by (subst TransformPortElements_loop.simps) simp
  next
    case (Some new)
    then have asserted: "\<not> (\<not> NDEBUG \<and> fmlookup m ?e = None)" by simp
    show ?thesis
    proof (cases "ReferencedPort new")
      case None
      with lt get Some show ?thesis by (subst TransformPortElements_loop.simps) simp
    next
      case (Some port)
      from dr "1.prems"(3) \<open>fmlookup m ?e = Some new\<close>
      have rest: "\<exists>e \<in> set (drop (index + 1) (elements_of elements)). fmlookup m e = None"
        by auto
      have "TransformPortElements_loop NDEBUG m elements sz index result =
            TransformPortElements_loop NDEBUG m elements sz (index + 1)
              (Append result (PortRange (Some port) (GetIndex new) 1))"
        using lt get \<open>fmlookup m ?e = Some new\<close> Some
        by (subst TransformPortElements_loop.simps) simp
      with "1.IH" [OF lt get asserted \<open>fmlookup m ?e = Some new\<close> Some "1.prems"(1) _ rest] lt
      show ?thesis by simp
    qed
  qed
qed

lemma TransformPortElements_loop_missing:
  assumes "sz = length (elements_of es)" "index \<le> sz"
    "\<exists>e \<in> set (drop index (elements_of es)). fmlookup m e = None"
    "\<forall>e \<in> set (drop index (elements_of es)). \<forall>new. fmlookup m e = Some new \<longrightarrow>
       ReferencedPort new \<noteq> None"
  shows "TransformPortElements_loop NDEBUG m es sz index result =
         Inl (if NDEBUG
              then InputException_invalidArgument ''Could not find element in new model.''
              else AssertionFailure)"
  using assms
proof (induction NDEBUG m es sz index result rule: TransformPortElements_loop.induct)
  case (1 NDEBUG m elements sz index result)
  have lt: "index < sz"
  proof (rule ccontr)
    assume "\<not> index < sz"
    with "1.prems" have "drop index (elements_of elements) = []" by simp
    with "1.prems"(3) show False by simp
  qed
  let ?e = "elements_of elements ! index"
  have get: "GetElement elements index = Inr ?e"
    using lt "1.prems" by (simp add: GetElement_nth)
  have dr: "drop index (elements_of elements) = ?e # drop (Suc index) (elements_of elements)"
    using lt "1.prems" by (simp add: Cons_nth_drop_Suc)
  show ?case
  proof (cases "fmlookup m ?e")
    case None
    with lt get show ?thesis by (subst TransformPortElements_loop.simps) simp
  next
    case (Some new)
    then have asserted: "\<not> (\<not> NDEBUG \<and> fmlookup m ?e = None)" by simp
    from Some dr "1.prems"(4) obtain port where port: "ReferencedPort new = Some port"
      by auto
    from dr "1.prems"(3) Some
    have rest: "\<exists>e \<in> set (drop (index + 1) (elements_of elements)). fmlookup m e = None"
      by auto
    have nonnull: "\<forall>e \<in> set (drop (index + 1) (elements_of elements)).
                     \<forall>new. fmlookup m e = Some new \<longrightarrow> ReferencedPort new \<noteq> None"
      using "1.prems"(4) dr by simp
    have "TransformPortElements_loop NDEBUG m elements sz index result =
          TransformPortElements_loop NDEBUG m elements sz (index + 1)
            (Append result (PortRange (Some port) (GetIndex new) 1))"
      using lt get Some port by (subst TransformPortElements_loop.simps) simp
    with "1.IH" [OF lt get asserted Some port "1.prems"(1) _ rest nonnull] lt
    show ?thesis by simp
  qed
qed

lemma TransformPortElements_found:
  assumes "\<forall>e \<in> set (elements_of es).
             \<exists>new port. fmlookup (m_elementToElementMap t) e = Some new \<and>
                         ReferencedPort new = Some port"
  shows "TransformPortElements NDEBUG t es =
         Inr (Consolidate (map (\<lambda>e. PortRange (ReferencedPort (index_or_default (m_elementToElementMap t) e))
                                      (GetIndex (index_or_default (m_elementToElementMap t) e)) 1)
                            (elements_of es)))"
  using TransformPortElements_loop_found
          [of "length (elements_of es)" es 0 "m_elementToElementMap t" NDEBUG "[]"] assms
  by (simp add: TransformPortElements_def Size_elements_length)

lemma TransformPortElements_fails:
  assumes "\<exists>e \<in> set (elements_of es). fmlookup (m_elementToElementMap t) e = None"
  shows "\<exists>err. TransformPortElements NDEBUG t es = Inl err"
proof -
  from TransformPortElements_loop_fails
         [of "length (elements_of es)" es 0 "m_elementToElementMap t" NDEBUG "[]"] assms
  obtain err where
    "TransformPortElements_loop NDEBUG (m_elementToElementMap t) es (length (elements_of es)) 0 [] =
     Inl err"
    by auto
  then show ?thesis by (simp add: TransformPortElements_def Size_elements_length)
qed

lemma TransformPortElements_missing:
  assumes "\<exists>e \<in> set (elements_of es). fmlookup (m_elementToElementMap t) e = None"
    "\<forall>e \<in> set (elements_of es). \<forall>new. fmlookup (m_elementToElementMap t) e = Some new \<longrightarrow>
       ReferencedPort new \<noteq> None"
  shows "TransformPortElements NDEBUG t es =
         Inl (if NDEBUG
              then InputException_invalidArgument ''Could not find element in new model.''
              else AssertionFailure)"
  using TransformPortElements_loop_missing
          [of "length (elements_of es)" es 0 "m_elementToElementMap t" NDEBUG "[]"] assms
  by (simp add: TransformPortElements_def Size_elements_length)

lemma elements_of_unit_ranges:
  "elements_of (map (\<lambda>e. PortRange (ReferencedPort (f e)) (GetIndex (f e)) 1) es) = map f es"
  by (induction es) (simp_all add: elements_of_def range_elements_def)

lemma Consolidate_head:
  "es \<noteq> [] \<Longrightarrow>
   Consolidate es \<noteq> [] \<and> RangePort (hd (Consolidate es)) = RangePort (hd es) \<and>
   GetStartIndex (hd (Consolidate es)) = GetStartIndex (hd es)"
  by (induction es rule: Consolidate.induct) auto

lemma Consolidate_idem: "Consolidate (Consolidate es) = Consolidate es"
proof (induction es rule: Consolidate.induct)
  case (1 r1 r2 rs)
  show ?case
  proof (cases "RangePort r1 = RangePort r2 \<and> GetStartIndex r1 + RangeSize r1 = GetStartIndex r2")
    case True
    with 1 show ?thesis by simp
  next
    case False
    obtain h tl where h: "Consolidate (r2 # rs) = h # tl"
      and hp: "RangePort h = RangePort r2" and hs: "GetStartIndex h = GetStartIndex r2"
      using Consolidate_head [of "r2 # rs"] by (cases "Consolidate (r2 # rs)") auto
    have "Consolidate (r1 # Consolidate (r2 # rs)) = r1 # Consolidate (Consolidate (r2 # rs))"
      using False hp hs by (auto simp add: h)
    with False 1 show ?thesis by auto
  qed
qed simp_all

lemma Consolidate_unit_run:
  "Consolidate (PortRange q a k # map (\<lambda>i. PortRange q i 1) [a + k ..< a + k + n]) =
   [PortRange q a (k + n)]"
proof (induction n arbitrary: k)
  case 0
  then show ?case by simp
next
  case (Suc n)
  have "[a + k ..< a + k + Suc n] = (a + k) # [a + (k + 1) ..< a + (k + 1) + n]"
    by (simp add: upt_rec)
  then show ?case using Suc.IH [of "k + 1"] by simp
qed

lemma Consolidate_whole_port:
  assumes "0 < n"
  shows "Consolidate (map (\<lambda>i. PortRange q i 1) [0 ..< n]) = [PortRange q 0 n]"
proof -
  obtain n' where n: "n = Suc n'" using assms by (cases n) auto
  have "[0 ..< n] = 0 # [0 + 1 ..< 0 + 1 + n']" by (simp add: n upt_rec)
  then show ?thesis using Consolidate_unit_run [of q 0 1 n'] by (simp add: n)
qed

section \<open>Remapping, context reset and the refinement loop\<close>

text \<open>
  Claim C3 as stated says that the call fails with the invalid-argument exception whenever
  an element reference has no image, and returns the images whenever every element
  reference has one.  Where the assertion of line 122 is compiled in, a reference without
  an image ends the call in the assertion failure, before the throw of line 125.  And
  after a clone pass and a refinement of the example model with one transformer, the
  output element of the sum node has an image, the default-constructed element, whose
  null handle line 129 dereferences.
\<close>

theorem TransformPortElements_asserts_or_dereferences_null:
  "TransformPortElements False (transformer_after_copy False example_model)
     [PortRange (Some input_port) 1 2] = Inl AssertionFailure \<and>
   fmlookup (m_elementToElementMap (transformer_after_copy_and_refine True))
     (PortElementBase (Some sum_port) 0) = Some PortElementBase_default \<and>
   TransformPortElements True (transformer_after_copy_and_refine True)
     [PortRange (Some sum_port) 0 1] = Inl NullPointerDereference"
  by (intro conjI; code_simp)

text \<open>
  Claim C3, as amended.  For every element set passed to \<open>TransformPortElements\<close>: if every
  element reference in it has an image in the element map and no image has a null handle,
  the call returns an element set whose sequence of elements is the sequence of the
  images, in the order of the input, in consolidated form, and fails in no way.  If some
  element reference has no image, the call returns no result; when none of the images has
  a null handle it fails with the invalid-argument exception where the assertion of line
  122 is compiled out, and by that assertion where it is compiled in.
\<close>

theorem TransformPortElements_images_or_failure:
  "((\<forall>e \<in> set (elements_of elements).
       \<exists>new port. fmlookup (m_elementToElementMap t) e = Some new \<and>
                   ReferencedPort new = Some port) \<longrightarrow>
      (\<exists>result. TransformPortElements NDEBUG t elements = Inr result \<and>
         map Some (elements_of result) =
           map (fmlookup (m_elementToElementMap t)) (elements_of elements) \<and>
         Consolidate result = result)) \<and>
   ((\<exists>e \<in> set (elements_of elements). fmlookup (m_elementToElementMap t) e = None) \<longrightarrow>
      (\<exists>err. TransformPortElements NDEBUG t elements = Inl err)) \<and>
   ((\<exists>e \<in> set (elements_of elements). fmlookup (m_elementToElementMap t) e = None) \<and>
    (\<forall>e \<in> set (elements_of elements). \<forall>new.
       fmlookup (m_elementToElementMap t) e = Some new \<longrightarrow> ReferencedPort new \<noteq> None) \<longrightarrow>
      TransformPortElements NDEBUG t elements =
        Inl (if NDEBUG
             then InputException_invalidArgument ''Could not find element in new model.''
             else AssertionFailure))"
proof (intro conjI impI)
  assume found: "\<forall>e \<in> set (elements_of elements).
       \<exists>new port. fmlookup (m_elementToElementMap t) e = Some new \<and>
                   ReferencedPort new = Some port"
  let ?m = "m_elementToElementMap t"
  let ?units = "map (\<lambda>e. PortRange (ReferencedPort (index_or_default ?m e))
                              (GetIndex (index_or_default ?m e)) 1) (elements_of elements)"
  have run: "TransformPortElements NDEBUG t elements = Inr (Consolidate ?units)"
    using found by (rule TransformPortElements_found)
  have "elements_of (Consolidate ?units) = map (index_or_default ?m) (elements_of elements)"
    by (simp only: elements_of_Consolidate elements_of_unit_ranges)
  moreover have "map Some (map (index_or_default ?m) (elements_of elements)) =
                 map (fmlookup ?m) (elements_of elements)"
    using found by (auto simp add: index_or_default_def)
  ultimately have "map Some (elements_of (Consolidate ?units)) =
                   map (fmlookup ?m) (elements_of elements)"
    by simp
  with run show "\<exists>result. TransformPortElements NDEBUG t elements = Inr result \<and>
         map Some (elements_of result) = map (fmlookup ?m) (elements_of elements) \<and>
         Consolidate result = result"
    using Consolidate_idem by blast
next
  assume "\<exists>e \<in> set (elements_of elements). fmlookup (m_elementToElementMap t) e = None"
  then show "\<exists>err. TransformPortElements NDEBUG t elements = Inl err"
    by (rule TransformPortElements_fails)
next
  assume "(\<exists>e \<in> set (elements_of elements). fmlookup (m_elementToElementMap t) e = None) \<and>
    (\<forall>e \<in> set (elements_of elements). \<forall>new.
       fmlookup (m_elementToElementMap t) e = Some new \<longrightarrow> ReferencedPort new \<noteq> None)"
  then show "TransformPortElements NDEBUG t elements =
        Inl (if NDEBUG
             then InputException_invalidArgument ''Could not find element in new model.''
             else AssertionFailure)"
    by (intro TransformPortElements_missing) simp_all
qed

text \<open>
  The transformer after a clone pass of the example model: both elements of the input
  node's output have an image and come back as one range; the element of index 2 has
  none, and the call ends in the exception or in the assertion.
\<close>

theorem TransformPortElements_images_or_failure_witness:
  "list_all (\<lambda>e. case fmlookup (m_elementToElementMap (transformer_after_copy False example_model)) e of
                    None \<Rightarrow> False | Some new \<Rightarrow> ReferencedPort new \<noteq> None)
      (elements_of [PortRange (Some input_port) 0 2]) \<and>
   TransformPortElements False (transformer_after_copy False example_model)
     [PortRange (Some input_port) 0 2] =
     Inr [PortRange (Some (input_port\<lparr>GetNode := 2\<rparr>)) 0 2] \<and>
   list_ex (\<lambda>e. fmlookup (m_elementToElementMap (transformer_after_copy False example_model)) e = None)
      (elements_of [PortRange (Some input_port) 1 2]) \<and>
   TransformPortElements True (transformer_after_copy False example_model)
     [PortRange (Some input_port) 1 2] =
     Inl (InputException_invalidArgument ''Could not find element in new model.'') \<and>
   TransformPortElements False (transformer_after_copy False example_model)
     [PortRange (Some input_port) 1 2] = Inl AssertionFailure"
proof -
  let ?t = "transformer_after_copy False example_model"
  let ?m = "m_elementToElementMap ?t"
  have all_found: "list_all (\<lambda>e. case fmlookup ?m e of
                    None \<Rightarrow> False | Some new \<Rightarrow> ReferencedPort new \<noteq> None)
      (elements_of [PortRange (Some input_port) 0 2])"
    by code_simp
  then have found: "\<forall>e \<in> set (elements_of [PortRange (Some input_port) 0 2]).
      \<exists>new port. fmlookup ?m e = Some new \<and> ReferencedPort new = Some port"
    unfolding list_all_iff by (auto split: option.splits)
  have one_missing: "list_ex (\<lambda>e. fmlookup ?m e = None)
      (elements_of [PortRange (Some input_port) 1 2])"
    by code_simp
  then have missing: "\<exists>e \<in> set (elements_of [PortRange (Some input_port) 1 2]).
      fmlookup ?m e = None"
    by (simp only: list_ex_iff)
  have "list_all (\<lambda>e. case fmlookup ?m e of
                    None \<Rightarrow> True | Some new \<Rightarrow> ReferencedPort new \<noteq> None)
      (elements_of [PortRange (Some input_port) 1 2])"
    by code_simp
  then have nonnull: "\<forall>e \<in> set (elements_of [PortRange (Some input_port) 1 2]). \<forall>new.
       fmlookup ?m e = Some new \<longrightarrow> ReferencedPort new \<noteq> None"
    unfolding list_all_iff by (auto split: option.splits)
  from TransformPortElements_images_or_failure
         [of "[PortRange (Some input_port) 0 2]" ?t False] found
  obtain result where
    "TransformPortElements False ?t [PortRange (Some input_port) 0 2] = Inr result"
    by blast
  moreover have "(case TransformPortElements False ?t [PortRange (Some input_port) 0 2] of
        Inl e \<Rightarrow> [] | Inr r \<Rightarrow> r) = [PortRange (Some (input_port\<lparr>GetNode := 2\<rparr>)) 0 2]"
    by code_simp
  ultimately have r: "TransformPortElements False ?t [PortRange (Some input_port) 0 2] =
     Inr [PortRange (Some (input_port\<lparr>GetNode := 2\<rparr>)) 0 2]"
    by simp
  from TransformPortElements_images_or_failure
         [of "[PortRange (Some input_port) 1 2]" ?t True] missing nonnull
  have thrown: "TransformPortElements True ?t [PortRange (Some input_port) 1 2] =
     Inl (InputException_invalidArgument ''Could not find element in new model.'')"
    by simp
  from TransformPortElements_images_or_failure
         [of "[PortRange (Some input_port) 1 2]" ?t False] missing nonnull
  have aborted: "TransformPortElements False ?t [PortRange (Some input_port) 1 2] =
     Inl AssertionFailure"
    by simp
  from all_found r one_missing thrown aborted show ?thesis by blast
qed

lemma CopyModel_context_reset:
  "CopyModel InvokeCopy oldModel context t = Inr (newModel, t') \<Longrightarrow>
   m_context t' = TransformContext_default"
  by (auto simp add: CopyModel_def Let_def split: sum.splits)

lemma RefineModel_context_reset:
  "RefineModel InvokeRefine cap oldModel context t = Inr (newModel, t') \<Longrightarrow>
   m_context t' = TransformContext_default"
  by (auto simp add: RefineModel_def Let_def split: sum.splits)

text \<open>
  Claim C7.  The predicate of a default-constructed \<open>TransformContext\<close> is false for every
  node; \<open>CopyModel\<close> and \<open>RefineModel\<close> leave the default context in the transformer when
  they return; and neither call depends on the context the transformer held before, so no
  context of an earlier call is in effect in the next one.
\<close>

theorem context_reset_between_calls:
  "IsNodeCompilable TransformContext_default node = False \<and>
   (\<forall>newModel t'. CopyModel InvokeCopy oldModel context t = Inr (newModel, t') \<longrightarrow>
      m_context t' = TransformContext_default) \<and>
   (\<forall>newModel t'. RefineModel InvokeRefine cap oldModel context t = Inr (newModel, t') \<longrightarrow>
      m_context t' = TransformContext_default) \<and>
   CopyModel InvokeCopy oldModel context (t\<lparr>m_context := previous\<rparr>) =
     CopyModel InvokeCopy oldModel context t \<and>
   RefineModel InvokeRefine cap oldModel context (t\<lparr>m_context := previous\<rparr>) =
     RefineModel InvokeRefine cap oldModel context t"
proof (intro conjI allI impI)
  show "IsNodeCompilable TransformContext_default node = False"
    by (simp add: IsNodeCompilable_def TransformContext_default_def)
next
  fix newModel t'
  assume "CopyModel InvokeCopy oldModel context t = Inr (newModel, t')"
  then show "m_context t' = TransformContext_default" by (rule CopyModel_context_reset)
next
  fix newModel t'
  assume "RefineModel InvokeRefine cap oldModel context t = Inr (newModel, t')"
  then show "m_context t' = TransformContext_default" by (rule RefineModel_context_reset)
next
  show "CopyModel InvokeCopy oldModel context (t\<lparr>m_context := previous\<rparr>) =
        CopyModel InvokeCopy oldModel context t"
    by (simp add: CopyModel_def)
next
  show "RefineModel InvokeRefine cap oldModel context (t\<lparr>m_context := previous\<rparr>) =
        RefineModel InvokeRefine cap oldModel context t"
    by (simp add: RefineModel_def)
qed

text \<open>Both calls on the example model return, with the default context in place.\<close>

theorem context_reset_between_calls_witness:
  "(\<exists>newModel t'. CopyModel (Copy_into False) example_model accept_terminal fresh_transformer =
       Inr (newModel, t') \<and> m_context t' = TransformContext_default) \<and>
   (\<exists>newModel t'. RefineModel (Refine_no_change False) 10 example_model accept_terminal fresh_transformer =
       Inr (newModel, t') \<and> m_context t' = TransformContext_default)"
proof -
  have "thrown (CopyModel (Copy_into False) example_model accept_terminal fresh_transformer) = None"
    by code_simp
  then obtain newModel t' where
    c: "CopyModel (Copy_into False) example_model accept_terminal fresh_transformer = Inr (newModel, t')"
    by (cases "CopyModel (Copy_into False) example_model accept_terminal fresh_transformer")
       (auto simp add: thrown_def)
  have "thrown (RefineModel (Refine_no_change False) 10 example_model accept_terminal fresh_transformer) = None"
    by code_simp
  then obtain newModel2 t2 where
    r: "RefineModel (Refine_no_change False) 10 example_model accept_terminal fresh_transformer =
        Inr (newModel2, t2)"
    by (cases "RefineModel (Refine_no_change False) 10 example_model accept_terminal fresh_transformer")
       (auto simp add: thrown_def)
  note reset = context_reset_between_calls
    [of input_node "Copy_into False" example_model accept_terminal fresh_transformer "Refine_no_change False" 10
        accept_terminal]
  from reset c have "m_context t' = TransformContext_default" by blast
  moreover from reset r have "m_context t2 = TransformContext_default" by blast
  ultimately show ?thesis using c r by blast
qed

lemma RefinePass_run:
  assumes "Visit (refine_visitor InvokeRefine) (m_model t)
             (False, t\<lparr>m_model := Model_empty, m_elementToElementMap := fmempty,
                        m_isModelCompilable := True\<rparr>) = Inr (didRefineAny, t4)"
  shows "RefinePass InvokeRefine t =
         Inr (didRefineAny,
              if fmdom (m_elementToElementMap t) \<noteq> {||}
              then t4\<lparr>m_elementToElementMap :=
                        newElementToElementMap (m_elementToElementMap t) (m_elementToElementMap t4)\<rparr>
              else t4)"
  using assms by (simp add: RefinePass_def Let_def)

lemma RefinePass_installs_default:
  assumes "Visit (refine_visitor InvokeRefine) (m_model t)
             (False, t\<lparr>m_model := Model_empty, m_elementToElementMap := fmempty,
                        m_isModelCompilable := True\<rparr>) = Inr (didRefineAny, t4)"
  shows "\<exists>t5. RefinePass InvokeRefine t = Inr (didRefineAny, t5) \<and>
              fmdom (m_elementToElementMap t5) =
                (if fmdom (m_elementToElementMap t) \<noteq> {||} then fmdom (m_elementToElementMap t)
                 else fmdom (m_elementToElementMap t4)) \<and>
              (\<forall>old mid. fmlookup (m_elementToElementMap t) old = Some mid \<and>
                 fmlookup (m_elementToElementMap t4) mid = None \<longrightarrow>
                 fmlookup (m_elementToElementMap t5) old = Some PortElementBase_default) \<and>
              (\<forall>old mid new. fmlookup (m_elementToElementMap t) old = Some mid \<and>
                 fmlookup (m_elementToElementMap t4) mid = Some new \<longrightarrow>
                 fmlookup (m_elementToElementMap t5) old = Some new)"
proof (cases "fmdom (m_elementToElementMap t) = {||}")
  case True
  then have "fmlookup (m_elementToElementMap t) old = None" for old
    by (metis fmdom_notD fempty_iff)
  with True RefinePass_run [OF assms] show ?thesis by simp
next
  case False
  with RefinePass_run [OF assms] show ?thesis
    by (auto simp add: newElementToElementMap_def index_or_default_def)
qed

text \<open>
  Claim C9.  In the concatenation of the port maps of \<open>RefineModel\<close>, an entry \<open>(old, mid)\<close>
  of the previous map whose \<open>mid\<close> has no image in the map of the pass gets the
  default-constructed element reference as the image of \<open>old\<close>, and no exception: the map
  the generation leaves, and the map \<open>RefineModel\<close> leaves when that generation is its
  last, send \<open>old\<close> to the default-constructed element.  The concatenation keeps every key
  of the previous map, for any pair of maps, and once the pass over the nodes has
  returned, the generation returns too.
\<close>

theorem concatenation_installs_default:
  "(fmlookup currentElementToElementMap old = Some mid \<and> fmlookup passMap mid = None \<longrightarrow>
      fmlookup (newElementToElementMap currentElementToElementMap passMap) old =
        Some PortElementBase_default) \<and>
   fmdom (newElementToElementMap currentElementToElementMap passMap) =
     fmdom currentElementToElementMap \<and>
   (\<forall>didRefineAny t4.
      Visit (refine_visitor InvokeRefine) (m_model t)
        (False, t\<lparr>m_model := Model_empty, m_elementToElementMap := fmempty,
                   m_isModelCompilable := True\<rparr>) = Inr (didRefineAny, t4) \<longrightarrow>
      (\<exists>t5. RefinePass InvokeRefine t = Inr (didRefineAny, t5) \<and>
            fmdom (m_elementToElementMap t5) =
              (if fmdom (m_elementToElementMap t) \<noteq> {||} then fmdom (m_elementToElementMap t)
               else fmdom (m_elementToElementMap t4)) \<and>
            (\<forall>key image. fmlookup (m_elementToElementMap t) key = Some image \<and>
               fmlookup (m_elementToElementMap t4) image = None \<longrightarrow>
               fmlookup (m_elementToElementMap t5) key = Some PortElementBase_default))) \<and>
   (\<forall>t4.
      Visit (refine_visitor InvokeRefine) oldModel
        (False, t\<lparr>m_context := context, m_model := Model_empty, m_elementToElementMap := fmempty,
                   m_isModelCompilable := True\<rparr>) = Inr (False, t4) \<longrightarrow>
      (\<exists>newModel t'. RefineModel InvokeRefine cap oldModel context t = Inr (newModel, t') \<and>
            (\<forall>key image. fmlookup (m_elementToElementMap t) key = Some image \<and>
               fmlookup (m_elementToElementMap t4) image = None \<longrightarrow>
               fmlookup (m_elementToElementMap t') key = Some PortElementBase_default)))"
proof (intro conjI allI impI)
  assume "fmlookup currentElementToElementMap old = Some mid \<and> fmlookup passMap mid = None"
  then show "fmlookup (newElementToElementMap currentElementToElementMap passMap) old =
        Some PortElementBase_default"
    by (simp add: newElementToElementMap_def index_or_default_def)
next
  show "fmdom (newElementToElementMap currentElementToElementMap passMap) =
     fmdom currentElementToElementMap"
    by (simp add: newElementToElementMap_def)
next
  fix didRefineAny t4
  assume "Visit (refine_visitor InvokeRefine) (m_model t)
        (False, t\<lparr>m_model := Model_empty, m_elementToElementMap := fmempty,
                   m_isModelCompilable := True\<rparr>) = Inr (didRefineAny, t4)"
  from RefinePass_installs_default [OF this]
  show "\<exists>t5. RefinePass InvokeRefine t = Inr (didRefineAny, t5) \<and>
            fmdom (m_elementToElementMap t5) =
              (if fmdom (m_elementToElementMap t) \<noteq> {||} then fmdom (m_elementToElementMap t)
               else fmdom (m_elementToElementMap t4)) \<and>
            (\<forall>key image. fmlookup (m_elementToElementMap t) key = Some image \<and>
               fmlookup (m_elementToElementMap t4) image = None \<longrightarrow>
               fmlookup (m_elementToElementMap t5) key = Some PortElementBase_default)"
    by blast
next
  fix t4
  let ?t2 = "t\<lparr>m_context := context, m_model := oldModel\<rparr>"
  assume "Visit (refine_visitor InvokeRefine) oldModel
        (False, t\<lparr>m_context := context, m_model := Model_empty, m_elementToElementMap := fmempty,
                   m_isModelCompilable := True\<rparr>) = Inr (False, t4)"
  then have "Visit (refine_visitor InvokeRefine) (m_model ?t2)
        (False, ?t2\<lparr>m_model := Model_empty, m_elementToElementMap := fmempty,
                     m_isModelCompilable := True\<rparr>) = Inr (False, t4)"
    by simp
  from RefinePass_installs_default [OF this]
  obtain t5 where pass: "RefinePass InvokeRefine ?t2 = Inr (False, t5)"
    and installed: "\<forall>key image. fmlookup (m_elementToElementMap ?t2) key = Some image \<and>
               fmlookup (m_elementToElementMap t4) image = None \<longrightarrow>
               fmlookup (m_elementToElementMap t5) key = Some PortElementBase_default"
    by blast
  have "RefineModel_loop InvokeRefine cap context 0 ?t2 = Inr t5"
    by (subst RefineModel_loop.simps) (simp add: pass)
  then have "RefineModel InvokeRefine cap oldModel context t =
             Inr (m_model t5, t5\<lparr>m_context := TransformContext_default\<rparr>)"
    by (simp add: RefineModel_def)
  with installed
  show "\<exists>newModel t'. RefineModel InvokeRefine cap oldModel context t = Inr (newModel, t') \<and>
            (\<forall>key image. fmlookup (m_elementToElementMap t) key = Some image \<and>
               fmlookup (m_elementToElementMap t4) image = None \<longrightarrow>
               fmlookup (m_elementToElementMap t') key = Some PortElementBase_default)"
    by simp
qed

text \<open>
  An entry whose image is missing from an empty pass map; and the refinement of the example
  model by a transformer that has run a clone pass on it: the previous map sends the
  output element of the sum node to an element of the clone, which is no key of the map
  of the pass.
\<close>

theorem concatenation_installs_default_witness:
  "fmlookup (newElementToElementMap
      (fmupd (PortElementBase (Some input_port) 0) (PortElementBase (Some sum_port) 0) fmempty)
      fmempty) (PortElementBase (Some input_port) 0) = Some PortElementBase_default \<and>
   fmlookup (m_elementToElementMap (transformer_after_copy False example_model))
     (PortElementBase (Some sum_port) 0) = Some (PortElementBase (Some (sum_port\<lparr>GetNode := 3\<rparr>)) 0) \<and>
   (\<exists>didRefineAny t5. RefinePass (Refine_no_change False) (stale_entry False) = Inr (didRefineAny, t5) \<and>
      fmlookup (m_elementToElementMap t5) (PortElementBase (Some sum_port) 0) =
        Some PortElementBase_default) \<and>
   (\<exists>newModel t'.
      RefineModel (Refine_no_change False) 10 example_model accept_terminal
        (transformer_after_copy False example_model) = Inr (newModel, t') \<and>
      fmlookup (m_elementToElementMap t') (PortElementBase (Some sum_port) 0) =
        Some PortElementBase_default)"
proof -
  let ?cur = "fmupd (PortElementBase (Some input_port) 0) (PortElementBase (Some sum_port) 0) fmempty"
  let ?old = "PortElementBase (Some sum_port) 0"
  let ?mid = "PortElementBase (Some (sum_port\<lparr>GetNode := 3\<rparr>)) 0"
  let ?t = "transformer_after_copy False example_model"
  let ?IR = "Refine_no_change False"
  have "fmlookup ?cur (PortElementBase (Some input_port) 0) = Some (PortElementBase (Some sum_port) 0) \<and>
        fmlookup fmempty (PortElementBase (Some sum_port) 0) = None"
    by simp
  with concatenation_installs_default
         [where currentElementToElementMap = ?cur and old = "PortElementBase (Some input_port) 0"
            and mid = "PortElementBase (Some sum_port) 0" and passMap = fmempty]
  have a: "fmlookup (newElementToElementMap ?cur fmempty) (PortElementBase (Some input_port) 0) =
           Some PortElementBase_default"
    by blast
  have previous: "fmlookup (m_elementToElementMap ?t) ?old = Some ?mid"
    by code_simp
  have previous': "fmlookup (m_elementToElementMap (stale_entry False)) ?old = Some ?mid"
    using previous by (simp add: stale_entry_def)
  let ?v = "Visit (refine_visitor ?IR) example_model
              (False, ?t\<lparr>m_context := accept_terminal, m_model := Model_empty,
                          m_elementToElementMap := fmempty, m_isModelCompilable := True\<rparr>)"
  have changed: "pass_changed ?v = Some False"
    by code_simp
  have no_image: "(case ?v of Inl e \<Rightarrow> None
                   | Inr (d, t4) \<Rightarrow> Some (fmlookup (m_elementToElementMap t4) ?mid)) = Some None"
    by code_simp
  obtain t4 where v: "?v = Inr (False, t4)" and none: "fmlookup (m_elementToElementMap t4) ?mid = None"
    using changed no_image by (cases ?v) (auto simp add: pass_changed_def)
  from concatenation_installs_default
         [where InvokeRefine = ?IR and oldModel = example_model and t = ?t
            and cap = 10] v previous none
  have whole: "\<exists>newModel t'.
      RefineModel ?IR 10 example_model accept_terminal ?t = Inr (newModel, t') \<and>
      fmlookup (m_elementToElementMap t') ?old = Some PortElementBase_default"
    by blast
  let ?w = "Visit (refine_visitor ?IR) (m_model (stale_entry False))
              (False, (stale_entry False)\<lparr>m_model := Model_empty, m_elementToElementMap := fmempty,
                                           m_isModelCompilable := True\<rparr>)"
  have "thrown ?w = None"
    by code_simp
  moreover have "(case ?w of Inl e \<Rightarrow> None
                   | Inr (d, t4) \<Rightarrow> Some (fmlookup (m_elementToElementMap t4) ?mid)) = Some None"
    by code_simp
  ultimately obtain d t4' where w: "?w = Inr (d, t4')"
    and none': "fmlookup (m_elementToElementMap t4') ?mid = None"
    by (cases ?w) (auto simp add: thrown_def)
  from concatenation_installs_default
         [where InvokeRefine = ?IR and t = "stale_entry False"] w previous' none'
  have one: "\<exists>didRefineAny t5. RefinePass ?IR (stale_entry False) = Inr (didRefineAny, t5) \<and>
      fmlookup (m_elementToElementMap t5) ?old = Some PortElementBase_default"
    by blast
  from a previous one whole show ?thesis by blast
qed

lemma thrownD: "thrown r = Some e \<Longrightarrow> r = Inl e"
  by (cases r) (simp_all add: thrown_def)

text \<open>
  Claim C2.  The loop of \<open>RefineModel\<close> returns normally whenever a completed pass reports
  that no node changed, or whenever the model is compilable after the pass; only if neither
  holds does it count the iteration and abort at the cap.  In particular a pass on which
  some node refined but which left the model compilable returns normally, even at the cap.
  The source tests the cap (line 97) before the loop condition (line 107).  On a node ten
  levels deep and the cap 10, the tenth pass refines the node into its terminal kind,
  which the context accepts: the pass reports a change, the model is compilable, and both
  the loop and the call throw, with a message that speaks of more than 10 iterations and
  names the node of the previous generation.  With the cap 11 the same ten passes return
  the model, whose one node the context accepts.
\<close>

theorem RefineModel_aborts_at_cap_when_compilable:
  "RefineModel (Refine_by_level NDEBUG) 10 [level_node ''dddddddddd''] accept_terminal
     fresh_transformer =
     Inl (LogicException_illegalState
            ''More than 10 refinement iterations, first uncompilable node: d'') \<and>
   pass_changed (RefinePass (Refine_by_level NDEBUG)
                   (generations (Refine_by_level NDEBUG) 9 ten_level_entry)) = Some True \<and>
   pass_compilable (RefinePass (Refine_by_level NDEBUG)
                      (generations (Refine_by_level NDEBUG) 9 ten_level_entry)) = Some True \<and>
   RefineModel_loop (Refine_by_level NDEBUG) 10 accept_terminal 9
       (generations (Refine_by_level NDEBUG) 9 ten_level_entry) =
     Inl (LogicException_illegalState
            ''More than 10 refinement iterations, first uncompilable node: d'') \<and>
   map_option (map GetRuntimeTypeName)
     (returned_model
        (RefineModel (Refine_by_level NDEBUG) 11 [level_node ''dddddddddd''] accept_terminal
           fresh_transformer)) = Some [[]] \<and>
   map_option (map (IsNodeCompilable accept_terminal))
     (returned_model
        (RefineModel (Refine_by_level NDEBUG) 11 [level_node ''dddddddddd''] accept_terminal
           fresh_transformer)) = Some [True]"
proof (intro conjI)
  show "RefineModel (Refine_by_level NDEBUG) 10 [level_node ''dddddddddd''] accept_terminal
     fresh_transformer =
     Inl (LogicException_illegalState
            ''More than 10 refinement iterations, first uncompilable node: d'')"
    by (rule thrownD) code_simp
  show "RefineModel_loop (Refine_by_level NDEBUG) 10 accept_terminal 9
       (generations (Refine_by_level NDEBUG) 9 ten_level_entry) =
     Inl (LogicException_illegalState
            ''More than 10 refinement iterations, first uncompilable node: d'')"
    by (rule thrownD) code_simp
qed code_simp+

section \<open>The clone of a well-formed model\<close>

lemma fold_fmupd_upt_lookup:
  "fmlookup (fold (\<lambda>i m. fmupd (PortElementBase (Some p) i) (PortElementBase (Some q) i) m) [0..<n] m0) k =
   (if ReferencedPort k = Some p \<and> GetIndex k < n then Some (PortElementBase (Some q) (GetIndex k))
    else fmlookup m0 k)"
proof (induction n)
  case 0
  then show ?case by simp
next
  case (Suc n)
  then show ?case by (cases k) (auto simp add: less_Suc_eq)
qed

lemma MapNodeOutput_lookup:
  "fmlookup (m_elementToElementMap (MapNodeOutput oldPort newPort t)) k =
   (if ReferencedPort k = Some oldPort \<and> GetIndex k < Size oldPort
    then Some (PortElementBase (Some newPort) (GetIndex k))
    else fmlookup (m_elementToElementMap t) k)"
  by (simp add: MapNodeOutput_def fold_fmupd_upt_lookup)

lemma MapNodeOutput_fields [simp]:
  "m_model (MapNodeOutput oldPort newPort t) = m_model t"
  "m_context (MapNodeOutput oldPort newPort t) = m_context t"
  "m_isModelCompilable (MapNodeOutput oldPort newPort t) = m_isModelCompilable t"
  "nextId (MapNodeOutput oldPort newPort t) = nextId t"
  by (simp_all add: MapNodeOutput_def)

lemma fold_MapNodeOutput_fields [simp]:
  "m_model (fold (\<lambda>(oldPort, newPort). MapNodeOutput oldPort newPort) pairs t) = m_model t"
  "m_context (fold (\<lambda>(oldPort, newPort). MapNodeOutput oldPort newPort) pairs t) = m_context t"
  "m_isModelCompilable (fold (\<lambda>(oldPort, newPort). MapNodeOutput oldPort newPort) pairs t) = m_isModelCompilable t"
  "nextId (fold (\<lambda>(oldPort, newPort). MapNodeOutput oldPort newPort) pairs t) = nextId t"
  by (induction pairs arbitrary: t; simp add: case_prod_beta)+

lemma fold_MapNodeOutput_lookup:
  "fmlookup (m_elementToElementMap
      (fold (\<lambda>(oldPort, newPort). MapNodeOutput oldPort newPort) (zip ports (map g ports)) t)) k =
   (if \<exists>p \<in> set ports. ReferencedPort k = Some p \<and> GetIndex k < Size p
    then Some (PortElementBase (map_option g (ReferencedPort k)) (GetIndex k))
    else fmlookup (m_elementToElementMap t) k)"
proof (induction ports arbitrary: t)
  case Nil
  then show ?case by simp
next
  case (Cons p ports)
  show ?case
    by (simp add: Cons.IH MapNodeOutput_lookup) auto
qed

lemma output_elements_iff:
  "e \<in> set (output_elements node) \<longleftrightarrow>
   (\<exists>p \<in> set (GetOutputs node). ReferencedPort e = Some p \<and> GetIndex e < Size p)"
  by (cases e) (auto simp add: output_elements_def image_iff)

lemma output_elements_owner:
  assumes "owns_outputs node" "e \<in> set (output_elements node)"
  shows "\<exists>p. ReferencedPort e = Some p \<and> GetNode p = GetId node"
  using assms by (auto simp add: output_elements_iff owns_outputs_def list_all_iff)

lemma TransformPortElements_renamed:
  assumes "copied \<rho> ps t"
    "\<forall>e \<in> set (elements_of input). e \<in> set (concat (map output_elements ps))"
  shows "TransformPortElements NDEBUG t input = Inr (rename_elements \<rho> input)"
proof -
  have image: "fmlookup (m_elementToElementMap t) e = Some (rename_element \<rho> e)"
    if "e \<in> set (elements_of input)" for e
    using that assms by (auto simp add: copied_def)
  have handle: "\<exists>port. ReferencedPort (rename_element \<rho> e) = Some port"
    if "e \<in> set (elements_of input)" for e
  proof -
    from that assms(2) obtain node where "e \<in> set (output_elements node)" by auto
    then obtain p where "ReferencedPort e = Some p" by (auto simp add: output_elements_iff)
    then show ?thesis by (simp add: rename_element_def)
  qed
  have "\<forall>e \<in> set (elements_of input).
          \<exists>new port. fmlookup (m_elementToElementMap t) e = Some new \<and>
                      ReferencedPort new = Some port"
    using image handle by blast
  then have run: "TransformPortElements NDEBUG t input =
      Inr (Consolidate (map (\<lambda>e. PortRange (ReferencedPort (index_or_default (m_elementToElementMap t) e))
                                      (GetIndex (index_or_default (m_elementToElementMap t) e)) 1)
                            (elements_of input)))"
    by (rule TransformPortElements_found)
  have eq: "map (\<lambda>e. PortRange (ReferencedPort (index_or_default (m_elementToElementMap t) e))
                                      (GetIndex (index_or_default (m_elementToElementMap t) e)) 1)
                            (elements_of input) =
                 map (\<lambda>e. PortRange_of_element (rename_element \<rho> e)) (elements_of input)"
    by (rule map_cong) (use image in \<open>simp_all add: index_or_default_def PortRange_of_element_def\<close>)
  show ?thesis unfolding rename_elements_def using run eq by (simp only:)
qed

lemma TransformInputs_renamed:
  assumes "copied \<rho> ps t"
    "\<forall>input \<in> set inputs. \<forall>e \<in> set (elements_of input).
       e \<in> set (concat (map output_elements ps))"
  shows "TransformInputs NDEBUG t inputs = Inr (map (rename_elements \<rho>) inputs)"
  using assms(2)
proof (induction inputs)
  case Nil
  then show ?case by simp
next
  case (Cons input inputs)
  have "TransformPortElements NDEBUG t input = Inr (rename_elements \<rho> input)"
    using Cons.prems by (intro TransformPortElements_renamed [OF assms(1)]) simp
  moreover have "TransformInputs NDEBUG t inputs = Inr (map (rename_elements \<rho>) inputs)"
    using Cons.prems by (intro Cons.IH) simp
  ultimately show ?case by simp
qed

lemma Copy_into_step:
  assumes inv: "copied \<rho> ps t"
    and id: "\<rho> (GetId node) = nextId t"
    and own: "owns_outputs node"
    and owns: "list_all owns_outputs ps"
    and new: "GetId node \<notin> set (map GetId ps)"
    and refs: "list_all (\<lambda>input. list_all (\<lambda>e. e \<in> set (concat (map output_elements ps)))
                          (elements_of input)) (GetInputs node)"
  shows "\<exists>t'. Copy_into NDEBUG node t = Inr t' \<and> copied \<rho> (ps @ [node]) t' \<and>
              nextId t' = nextId t + 1 \<and> m_context t' = m_context t"
proof -
  let ?m = "m_elementToElementMap t"
  have inputs: "TransformInputs NDEBUG t (GetInputs node) = Inr (map (rename_elements \<rho>) (GetInputs node))"
  proof (rule TransformInputs_renamed [OF inv], intro ballI)
    fix input e
    assume "input \<in> set (GetInputs node)" "e \<in> set (elements_of input)"
    with refs show "e \<in> set (concat (map output_elements ps))"
      by (simp add: list_all_iff)
  qed
  have outs: "map (\<lambda>port. port\<lparr>GetNode := nextId t\<rparr>) (GetOutputs node) =
              map (rename_port \<rho>) (GetOutputs node)"
    using own id by (simp add: owns_outputs_def list_all_iff rename_port_def)
  define newNode where "newNode = clone_node \<rho> node"
  define t1 where "t1 = AddNode newNode (t\<lparr>nextId := nextId t + 1\<rparr>)"
  define t' where "t' = fold (\<lambda>(oldPort, newPort). MapNodeOutput oldPort newPort)
                          (zip (GetOutputs node) (map (rename_port \<rho>) (GetOutputs node))) t1"
  have run: "Copy_into NDEBUG node t = Inr t'"
    by (simp add: Copy_into_def inputs Let_def outs t'_def t1_def newNode_def clone_node_def id)
  have model: "m_model t' = map (clone_node \<rho>) (ps @ [node])"
    using inv by (simp add: t'_def t1_def AddNode_def newNode_def copied_def)
  have lookup: "fmlookup (m_elementToElementMap t') k =
      (if \<exists>p \<in> set (GetOutputs node). ReferencedPort k = Some p \<and> GetIndex k < Size p
       then Some (rename_element \<rho> k) else fmlookup ?m k)" for k
    by (auto simp add: t'_def fold_MapNodeOutput_lookup rename_element_def t1_def AddNode_def)
  have entries: "fmlookup (m_elementToElementMap t') e = Some (rename_element \<rho> e)"
    if e: "e \<in> set (concat (map output_elements (ps @ [node])))" for e
  proof (cases "e \<in> set (output_elements node)")
    case True
    then show ?thesis by (simp add: lookup output_elements_iff)
  next
    case False
    with e have "e \<in> set (concat (map output_elements ps))" by auto
    with inv have "fmlookup ?m e = Some (rename_element \<rho> e)" by (auto simp add: copied_def)
    with False show ?thesis by (simp add: lookup output_elements_iff)
  qed
  have "copied \<rho> (ps @ [node]) t'"
    unfolding copied_def using model entries by blast
  moreover have "nextId t' = nextId t + 1" "m_context t' = m_context t"
    by (simp_all add: t'_def t1_def AddNode_def)
  ultimately show ?thesis using run by blast
qed

lemma Visit_Copy_into:
  assumes "copied \<rho> ps t"
    and "\<forall>j < length ns. \<rho> (GetId (ns ! j)) = nextId t + j"
    and "list_all owns_outputs (ps @ ns)"
    and "distinct (map GetId (ps @ ns))"
    and "no_forward_references ps ns"
  shows "\<exists>t'. Visit (Copy_into NDEBUG) ns t = Inr t' \<and> copied \<rho> (ps @ ns) t' \<and>
              nextId t' = nextId t + length ns \<and> m_context t' = m_context t"
  using assms
proof (induction ns arbitrary: ps t)
  case Nil
  then show ?case by simp
next
  case (Cons node ns)
  have id: "\<rho> (GetId node) = nextId t" using Cons.prems(2) by fastforce
  have "\<exists>t1. Copy_into NDEBUG node t = Inr t1 \<and> copied \<rho> (ps @ [node]) t1 \<and>
              nextId t1 = nextId t + 1 \<and> m_context t1 = m_context t"
    using Cons.prems by (intro Copy_into_step [OF Cons.prems(1) id]) auto
  then obtain t1 where step: "Copy_into NDEBUG node t = Inr t1" and inv1: "copied \<rho> (ps @ [node]) t1"
    and next1: "nextId t1 = nextId t + 1" and ctx1: "m_context t1 = m_context t"
    by blast
  have ids: "\<forall>j < length ns. \<rho> (GetId (ns ! j)) = nextId t1 + j"
  proof (intro allI impI)
    fix j assume "j < length ns"
    then have "\<rho> (GetId ((node # ns) ! Suc j)) = nextId t + Suc j"
      using Cons.prems(2) by (metis length_Cons Suc_less_eq)
    then show "\<rho> (GetId (ns ! j)) = nextId t1 + j" by (simp add: next1)
  qed
  have "\<exists>t'. Visit (Copy_into NDEBUG) ns t1 = Inr t' \<and> copied \<rho> ((ps @ [node]) @ ns) t' \<and>
              nextId t' = nextId t1 + length ns \<and> m_context t' = m_context t1"
    using Cons.prems by (intro Cons.IH [OF inv1 ids]) simp_all
  then show ?case using step next1 ctx1 by auto
qed

lemma position_nth:
  "distinct (map GetId m) \<Longrightarrow> j < length m \<Longrightarrow> position (GetId (m ! j)) m = j"
proof (induction m arbitrary: j)
  case Nil
  then show ?case by simp
next
  case (Cons node m)
  then show ?case by (cases j) auto
qed

lemma Visit_Copy_into_model:
  assumes "wf_Model m" "m_model t = Model_empty" "m_elementToElementMap t = fmempty"
  shows "\<exists>t'. Visit (Copy_into NDEBUG) m t = Inr t' \<and> copied (new_id m (nextId t)) m t' \<and>
              nextId t' = nextId t + length m \<and> m_context t' = m_context t"
proof -
  have "copied (new_id m (nextId t)) [] t"
    using assms by (simp add: copied_def Model_empty_def)
  moreover have "\<forall>j < length m. new_id m (nextId t) (GetId (m ! j)) = nextId t + j"
    using assms(1) by (simp add: new_id_def wf_Model_def position_nth)
  ultimately show ?thesis
    using Visit_Copy_into [of "new_id m (nextId t)" "[]" t m] assms(1)
    by (simp add: wf_Model_def)
qed

lemma copied_context [simp]: "copied \<rho> m (t\<lparr>m_context := c\<rparr>) = copied \<rho> m t"
  by (simp add: copied_def)

lemma copied_resolves:
  assumes "copied \<rho> m t" "e \<in> set (concat (map output_elements m))"
  shows "GetCorrespondingOutputs NDEBUG t [PortRange_of_element e] =
         Inr [PortRange_of_element (rename_element \<rho> e)]"
proof -
  have el: "elements_of [PortRange_of_element e] = [e]"
    by (cases e) (simp add: elements_of_def range_elements_def PortRange_of_element_def)
  have "\<forall>x \<in> set (elements_of [PortRange_of_element e]).
          x \<in> set (concat (map output_elements m))"
    using assms(2) by (simp add: el)
  then have "TransformPortElements NDEBUG t [PortRange_of_element e] =
             Inr (rename_elements \<rho> [PortRange_of_element e])"
    by (rule TransformPortElements_renamed [OF assms(1)])
  then show ?thesis
    by (simp add: GetCorrespondingOutputs_def rename_elements_def el)
qed

lemma copied_resolves_port:
  assumes "copied \<rho> m t" "node \<in> set m" "port \<in> set (GetOutputs node)" "0 < Size port"
  shows "GetCorrespondingOutputs_port NDEBUG t port = Inr [PortRange (Some (rename_port \<rho> port)) 0 (Size port)]"
proof -
  let ?es = "PortElementsBase_of_port port"
  have el: "elements_of ?es = map (PortElementBase (Some port)) [0 ..< Size port]"
    by (simp add: PortElementsBase_of_port_def PortRange_of_port_def elements_of_def
        range_elements_def)
  have "\<forall>e \<in> set (elements_of ?es). e \<in> set (concat (map output_elements m))"
    using assms(2,3) by (auto simp add: el output_elements_def)
  then have "TransformPortElements NDEBUG t ?es = Inr (rename_elements \<rho> ?es)"
    by (rule TransformPortElements_renamed [OF assms(1)])
  moreover have "rename_elements \<rho> ?es =
      Consolidate (map (\<lambda>i. PortRange (Some (rename_port \<rho> port)) i 1) [0 ..< Size port])"
    by (simp add: rename_elements_def el o_def rename_element_def PortRange_of_element_def)
  ultimately show ?thesis
    using Consolidate_whole_port [OF assms(4)]
    by (simp add: GetCorrespondingOutputs_port_def GetCorrespondingOutputs_def)
qed

lemma output_elements_clone:
  assumes "e \<in> set (output_elements node)"
  shows "rename_element \<rho> e \<in> set (output_elements (clone_node \<rho> node))"
proof -
  from assms obtain p where p: "p \<in> set (GetOutputs node)" "ReferencedPort e = Some p"
    "GetIndex e < Size p"
    by (auto simp add: output_elements_iff)
  have "rename_port \<rho> p \<in> set (GetOutputs (clone_node \<rho> node))"
    using p(1) by (simp add: clone_node_def)
  moreover have "ReferencedPort (rename_element \<rho> e) = Some (rename_port \<rho> p)"
    "GetIndex (rename_element \<rho> e) < Size (rename_port \<rho> p)"
    using p by (simp_all add: rename_element_def rename_port_def)
  ultimately show ?thesis
    unfolding output_elements_iff by blast
qed

lemma output_elements_clone_model:
  assumes "e \<in> set (concat (map output_elements m))"
  shows "rename_element \<rho> e \<in> set (concat (map output_elements (map (clone_node \<rho>) m)))"
  using assms output_elements_clone by fastforce

lemma CopyModel_Copy_into_run:
  assumes "wf_Model m"
  shows "\<exists>t'. CopyModel (Copy_into NDEBUG) m ctx t =
                Inr (map (clone_node (new_id m (nextId t))) m, t') \<and>
              copied (new_id m (nextId t)) m t' \<and> nextId t' = nextId t + length m"
proof -
  let ?t3 = "t\<lparr>m_context := ctx, m_model := Model_empty, m_elementToElementMap := fmempty\<rparr>"
  obtain t4 where visit: "Visit (Copy_into NDEBUG) m ?t3 = Inr t4"
    and inv: "copied (new_id m (nextId ?t3)) m t4" and nxt: "nextId t4 = nextId ?t3 + length m"
    using Visit_Copy_into_model [OF assms, of ?t3] by auto
  have "CopyModel (Copy_into NDEBUG) m ctx t =
        Inr (m_model t4, t4\<lparr>m_context := TransformContext_default\<rparr>)"
    by (simp add: CopyModel_def visit)
  moreover have "m_model t4 = map (clone_node (new_id m (nextId t))) m"
    using inv by (simp add: copied_def)
  ultimately show ?thesis using inv nxt by simp
qed

lemma clone_model_ids:
  assumes "distinct (map GetId m)"
  shows "map GetId (map (clone_node (new_id m base)) m) = [base ..< base + length m]"
proof (rule nth_equalityI)
  show "length (map GetId (map (clone_node (new_id m base)) m)) = length [base ..< base + length m]"
    by simp
next
  fix j assume "j < length (map GetId (map (clone_node (new_id m base)) m))"
  then have j: "j < length m" by simp
  then show "map GetId (map (clone_node (new_id m base)) m) ! j = [base ..< base + length m] ! j"
    using assms by (simp add: clone_node_def new_id_def position_nth)
qed

lemma clone_model_kinds:
  "map GetRuntimeTypeName (map (clone_node \<rho>) m) = map GetRuntimeTypeName m"
  by (simp add: clone_node_def)

lemma clone_model_port:
  assumes "j < length m" "s < length (GetOutputs (m ! j))" "owns_outputs (m ! j)"
  shows "s < length (GetOutputs (map (clone_node \<rho>) m ! j)) \<and>
         GetOutputs (map (clone_node \<rho>) m ! j) ! s = rename_port \<rho> (GetOutputs (m ! j) ! s) \<and>
         GetType (GetOutputs (map (clone_node \<rho>) m ! j) ! s) = GetType (GetOutputs (m ! j) ! s) \<and>
         Size (GetOutputs (map (clone_node \<rho>) m ! j) ! s) = Size (GetOutputs (m ! j) ! s) \<and>
         GetName (GetOutputs (map (clone_node \<rho>) m ! j) ! s) = GetName (GetOutputs (m ! j) ! s) \<and>
         GetNode (GetOutputs (map (clone_node \<rho>) m ! j) ! s) = GetId (map (clone_node \<rho>) m ! j)"
  using assms
  by (simp add: clone_node_def rename_port_def owns_outputs_def list_all_iff)

lemma port_element_in_model:
  assumes "j < length m" "s < length (GetOutputs (m ! j))" "i < Size (GetOutputs (m ! j) ! s)"
  shows "PortElementBase (Some (GetOutputs (m ! j) ! s)) i \<in> set (concat (map output_elements m))"
proof -
  have "PortElementBase (Some (GetOutputs (m ! j) ! s)) i \<in> set (output_elements (m ! j))"
    using assms by (simp add: output_elements_iff)
  then show ?thesis using assms(1) by auto
qed

text \<open>
  Claim C5.  For every well-formed (acyclic) model and every context, with assertions
  compiled in or out, \<open>CopyModel\<close> with the Copy-into of the nodes' contract returns a model of newly numbered nodes with the
  same node count and the same kinds in dependency order; every output of every node has an
  output of the same type, size and name at the same position of the clone, and
  \<open>GetCorrespondingOutputs\<close> resolves each of its elements to the element of the same index
  of that output.
\<close>

theorem CopyModel_clone_isomorphism:
  assumes "wf_Model oldModel"
  shows "\<exists>newModel t'.
     CopyModel (Copy_into NDEBUG) oldModel context t = Inr (newModel, t') \<and>
     newModel = map (clone_node (new_id oldModel (nextId t))) oldModel \<and>
     length newModel = length oldModel \<and>
     map GetRuntimeTypeName newModel = map GetRuntimeTypeName oldModel \<and>
     map GetId newModel = [nextId t ..< nextId t + length oldModel] \<and>
     (\<forall>j < length oldModel. \<forall>s < length (GetOutputs (oldModel ! j)).
        s < length (GetOutputs (newModel ! j)) \<and>
        GetType (GetOutputs (newModel ! j) ! s) = GetType (GetOutputs (oldModel ! j) ! s) \<and>
        Size (GetOutputs (newModel ! j) ! s) = Size (GetOutputs (oldModel ! j) ! s) \<and>
        GetName (GetOutputs (newModel ! j) ! s) = GetName (GetOutputs (oldModel ! j) ! s) \<and>
        GetNode (GetOutputs (newModel ! j) ! s) = GetId (newModel ! j) \<and>
        (\<forall>i < Size (GetOutputs (oldModel ! j) ! s).
           GetCorrespondingOutputs NDEBUG t' [PortRange (Some (GetOutputs (oldModel ! j) ! s)) i 1] =
             Inr [PortRange (Some (GetOutputs (newModel ! j) ! s)) i 1]))"
proof -
  let ?\<rho> = "new_id oldModel (nextId t)"
  let ?new = "map (clone_node ?\<rho>) oldModel"
  obtain t' where run: "CopyModel (Copy_into NDEBUG) oldModel context t = Inr (?new, t')"
    and inv: "copied ?\<rho> oldModel t'"
    using CopyModel_Copy_into_run [OF assms] by blast
  have ids: "map GetId ?new = [nextId t ..< nextId t + length oldModel]"
    using assms by (intro clone_model_ids) (simp add: wf_Model_def)
  have ports: "s < length (GetOutputs (?new ! j)) \<and>
        GetType (GetOutputs (?new ! j) ! s) = GetType (GetOutputs (oldModel ! j) ! s) \<and>
        Size (GetOutputs (?new ! j) ! s) = Size (GetOutputs (oldModel ! j) ! s) \<and>
        GetName (GetOutputs (?new ! j) ! s) = GetName (GetOutputs (oldModel ! j) ! s) \<and>
        GetNode (GetOutputs (?new ! j) ! s) = GetId (?new ! j) \<and>
        (\<forall>i < Size (GetOutputs (oldModel ! j) ! s).
           GetCorrespondingOutputs NDEBUG t' [PortRange (Some (GetOutputs (oldModel ! j) ! s)) i 1] =
             Inr [PortRange (Some (GetOutputs (?new ! j) ! s)) i 1])"
    if j: "j < length oldModel" and s: "s < length (GetOutputs (oldModel ! j))" for j s
  proof -
    have own: "owns_outputs (oldModel ! j)"
      using assms j by (simp add: wf_Model_def list_all_length)
    note port = clone_model_port [OF j s own, of ?\<rho>]
    have "GetCorrespondingOutputs NDEBUG t' [PortRange (Some (GetOutputs (oldModel ! j) ! s)) i 1] =
             Inr [PortRange (Some (GetOutputs (?new ! j) ! s)) i 1]"
      if i: "i < Size (GetOutputs (oldModel ! j) ! s)" for i
      using copied_resolves [OF inv port_element_in_model [OF j s i]] port
      by (simp add: PortRange_of_element_def rename_element_def)
    with port show ?thesis by blast
  qed
  have kinds: "map GetRuntimeTypeName ?new = map GetRuntimeTypeName oldModel"
    by (rule clone_model_kinds)
  have len: "length ?new = length oldModel" by simp
  show ?thesis
  proof (intro exI conjI allI impI)
    show "CopyModel (Copy_into NDEBUG) oldModel context t = Inr (?new, t')" by (rule run)
    show "?new = map (clone_node ?\<rho>) oldModel" by (rule refl)
    show "length ?new = length oldModel" by (rule len)
    show "map GetRuntimeTypeName ?new = map GetRuntimeTypeName oldModel" by (rule kinds)
    show "map GetId ?new = [nextId t ..< nextId t + length oldModel]" by (rule ids)
  qed (use ports in blast)+
qed

text \<open>The clone of the example model.\<close>

theorem CopyModel_clone_isomorphism_witness:
  "wf_Model example_model \<and>
   (\<exists>newModel t'.
      CopyModel (Copy_into False) example_model accept_terminal fresh_transformer = Inr (newModel, t') \<and>
      map GetRuntimeTypeName newModel = [''InputNode'', ''SumNode''] \<and>
      map GetId newModel = [2, 3] \<and>
      GetCorrespondingOutputs False t' [PortRange (Some sum_port) 0 1] =
        Inr [PortRange (Some (GetOutputs (newModel ! 1) ! 0)) 0 1])"
proof -
  have wf: "wf_Model example_model" by code_simp
  obtain newModel t' where
    run: "CopyModel (Copy_into False) example_model accept_terminal fresh_transformer = Inr (newModel, t')"
    and kinds: "map GetRuntimeTypeName newModel = map GetRuntimeTypeName example_model"
    and ids: "map GetId newModel =
              [nextId fresh_transformer ..< nextId fresh_transformer + length example_model]"
    and ports: "\<forall>j < length example_model. \<forall>s < length (GetOutputs (example_model ! j)).
        s < length (GetOutputs (newModel ! j)) \<and>
        GetType (GetOutputs (newModel ! j) ! s) = GetType (GetOutputs (example_model ! j) ! s) \<and>
        Size (GetOutputs (newModel ! j) ! s) = Size (GetOutputs (example_model ! j) ! s) \<and>
        GetName (GetOutputs (newModel ! j) ! s) = GetName (GetOutputs (example_model ! j) ! s) \<and>
        GetNode (GetOutputs (newModel ! j) ! s) = GetId (newModel ! j) \<and>
        (\<forall>i < Size (GetOutputs (example_model ! j) ! s).
           GetCorrespondingOutputs False t' [PortRange (Some (GetOutputs (example_model ! j) ! s)) i 1] =
             Inr [PortRange (Some (GetOutputs (newModel ! j) ! s)) i 1])"
    using CopyModel_clone_isomorphism
            [OF wf, where NDEBUG = False and t = fresh_transformer] by blast
  have k: "map GetRuntimeTypeName newModel = [''InputNode'', ''SumNode'']"
    using kinds by (simp add: example_model_def input_node_def sum_node_def)
  have i: "map GetId newModel = [2, 3]"
    using ids by (simp add: example_model_def fresh_transformer_def upt_rec)
  have "GetCorrespondingOutputs False t' [PortRange (Some (GetOutputs (example_model ! 1) ! 0)) 0 1] =
        Inr [PortRange (Some (GetOutputs (newModel ! 1) ! 0)) 0 1]"
    using ports [rule_format, of 1 0] by (simp add: example_model_def sum_node_def sum_port_def)
  then have c: "GetCorrespondingOutputs False t' [PortRange (Some sum_port) 0 1] =
        Inr [PortRange (Some (GetOutputs (newModel ! 1) ! 0)) 0 1]"
    by (simp add: example_model_def sum_node_def)
  show ?thesis
    by (intro conjI exI [of _ newModel] exI [of _ t']) (rule wf run k i c)+
qed

lemma Visit_refine_no_change:
  "Visit (refine_visitor (Refine_no_change NDEBUG)) ns (d, t) =
   (case Visit (Copy_into NDEBUG) ns t of Inl e \<Rightarrow> Inl e | Inr t' \<Rightarrow> Inr (d, t'))"
proof (induction ns arbitrary: t)
  case Nil
  then show ?case by simp
next
  case (Cons node ns)
  then show ?case
    by (simp add: refine_visitor_def Refine_no_change_def split: sum.splits)
qed

lemma RefinePass_no_change_run:
  assumes "wf_Model (m_model t)"
  shows "\<exists>t'. RefinePass (Refine_no_change NDEBUG) t = Inr (False, t') \<and>
              m_model t' = map (clone_node (new_id (m_model t) (nextId t))) (m_model t) \<and>
              nextId t' = nextId t + length (m_model t) \<and> m_context t' = m_context t"
proof -
  let ?t3 = "t\<lparr>m_model := Model_empty, m_elementToElementMap := fmempty, m_isModelCompilable := True\<rparr>"
  obtain t4 where visit: "Visit (Copy_into NDEBUG) (m_model t) ?t3 = Inr t4"
    and inv: "copied (new_id (m_model t) (nextId ?t3)) (m_model t) t4"
    and nxt: "nextId t4 = nextId ?t3 + length (m_model t)"
    and ctx: "m_context t4 = m_context ?t3"
    using Visit_Copy_into_model [OF assms, of ?t3] by auto
  have model: "m_model t4 = map (clone_node (new_id (m_model t) (nextId t))) (m_model t)"
    using inv by (simp add: copied_def)
  show ?thesis
    using visit model nxt ctx
    by (auto simp add: RefinePass_def Visit_refine_no_change Let_def)
qed

text \<open>
  Claim C6.  For every well-formed model whose nodes' Refine-into always reports "no
  change", \<open>RefineModel\<close> returns after exactly one generation, whatever the cap: its
  result is the result of one pass, it has constructed one node per node of the input, and
  the model it returns has the same node count, kinds and outputs as the input.  It throws
  nothing.
\<close>

theorem RefineModel_fixed_point_one_generation:
  assumes "wf_Model oldModel"
  shows "\<exists>newModel t' t1.
     RefineModel (Refine_no_change NDEBUG) cap oldModel context t = Inr (newModel, t') \<and>
     RefinePass (Refine_no_change NDEBUG) (t\<lparr>m_context := context, m_model := oldModel\<rparr>) = Inr (False, t1) \<and>
     newModel = m_model t1 \<and> t' = t1\<lparr>m_context := TransformContext_default\<rparr> \<and>
     nextId t' = nextId t + length oldModel \<and>
     newModel = map (clone_node (new_id oldModel (nextId t))) oldModel \<and>
     length newModel = length oldModel \<and>
     map GetRuntimeTypeName newModel = map GetRuntimeTypeName oldModel \<and>
     (\<forall>j < length oldModel. \<forall>s < length (GetOutputs (oldModel ! j)).
        s < length (GetOutputs (newModel ! j)) \<and>
        GetType (GetOutputs (newModel ! j) ! s) = GetType (GetOutputs (oldModel ! j) ! s) \<and>
        Size (GetOutputs (newModel ! j) ! s) = Size (GetOutputs (oldModel ! j) ! s) \<and>
        GetName (GetOutputs (newModel ! j) ! s) = GetName (GetOutputs (oldModel ! j) ! s))"
proof -
  let ?t2 = "t\<lparr>m_context := context, m_model := oldModel\<rparr>"
  let ?\<rho> = "new_id oldModel (nextId t)"
  let ?new = "map (clone_node ?\<rho>) oldModel"
  obtain t1 where pass: "RefinePass (Refine_no_change NDEBUG) ?t2 = Inr (False, t1)"
    and model: "m_model t1 = ?new" and nxt: "nextId t1 = nextId t + length oldModel"
    using RefinePass_no_change_run [where t = ?t2 and NDEBUG = NDEBUG] assms by auto
  have loop: "RefineModel_loop (Refine_no_change NDEBUG) cap context 0 ?t2 = Inr t1"
    by (subst RefineModel_loop.simps) (simp add: pass)
  have run: "RefineModel (Refine_no_change NDEBUG) cap oldModel context t =
             Inr (?new, t1\<lparr>m_context := TransformContext_default\<rparr>)"
    by (simp add: RefineModel_def loop model)
  have ports: "s < length (GetOutputs (?new ! j)) \<and>
        GetType (GetOutputs (?new ! j) ! s) = GetType (GetOutputs (oldModel ! j) ! s) \<and>
        Size (GetOutputs (?new ! j) ! s) = Size (GetOutputs (oldModel ! j) ! s) \<and>
        GetName (GetOutputs (?new ! j) ! s) = GetName (GetOutputs (oldModel ! j) ! s)"
    if j: "j < length oldModel" and s: "s < length (GetOutputs (oldModel ! j))" for j s
  proof -
    have own: "owns_outputs (oldModel ! j)"
      using assms j by (simp add: wf_Model_def list_all_length)
    from clone_model_port [OF j s own, of ?\<rho>] show ?thesis by blast
  qed
  have kinds: "map GetRuntimeTypeName ?new = map GetRuntimeTypeName oldModel"
    by (rule clone_model_kinds)
  show ?thesis
  proof (intro exI conjI allI impI)
    show "RefineModel (Refine_no_change NDEBUG) cap oldModel context t =
          Inr (?new, t1\<lparr>m_context := TransformContext_default\<rparr>)" by (rule run)
    show "RefinePass (Refine_no_change NDEBUG) ?t2 = Inr (False, t1)" by (rule pass)
    show "?new = m_model t1" by (simp add: model)
    show "t1\<lparr>m_context := TransformContext_default\<rparr> = t1\<lparr>m_context := TransformContext_default\<rparr>"
      by (rule refl)
    show "nextId (t1\<lparr>m_context := TransformContext_default\<rparr>) = nextId t + length oldModel"
      by (simp add: nxt)
    show "?new = map (clone_node ?\<rho>) oldModel" by (rule refl)
    show "length ?new = length oldModel" by simp
    show "map GetRuntimeTypeName ?new = map GetRuntimeTypeName oldModel" by (rule kinds)
  qed (use ports in blast)+
qed

text \<open>The example model under the node kind that never refines: two nodes constructed.\<close>

theorem RefineModel_fixed_point_one_generation_witness:
  "wf_Model example_model \<and>
   (\<exists>newModel t'.
      RefineModel (Refine_no_change False) 10 example_model accept_terminal fresh_transformer =
        Inr (newModel, t') \<and>
      map GetRuntimeTypeName newModel = [''InputNode'', ''SumNode''] \<and>
      nextId t' = 4)"
proof -
  have wf: "wf_Model example_model" by code_simp
  obtain newModel t' where
    run: "RefineModel (Refine_no_change False) 10 example_model accept_terminal fresh_transformer =
          Inr (newModel, t')"
    and nxt: "nextId t' = nextId fresh_transformer + length example_model"
    and kinds: "map GetRuntimeTypeName newModel = map GetRuntimeTypeName example_model"
    using RefineModel_fixed_point_one_generation
            [OF wf, where NDEBUG = False and cap = 10 and t = fresh_transformer]
    by blast
  have k: "map GetRuntimeTypeName newModel = [''InputNode'', ''SumNode'']"
    using kinds by (simp add: example_model_def input_node_def sum_node_def)
  have n: "nextId t' = 4"
    using nxt by (simp add: example_model_def fresh_transformer_def)
  show ?thesis
    by (intro conjI exI [of _ newModel] exI [of _ t']) (rule wf run k n)+
qed

text \<open>
  Claim C10.  When \<open>CopyModel\<close> returns, the transformer's element map is the map the pass
  over the nodes has built: it is not cleared.  So, for a well-formed model and the
  Copy-into of the nodes' contract, \<open>GetCorrespondingOutputs\<close> called after the return
  resolves every output element of the source model to its image, an output element of the
  returned clone.
\<close>

theorem CopyModel_retains_map:
  "(\<forall>newModel t'. CopyModel InvokeCopy oldModel context t = Inr (newModel, t') \<longrightarrow>
      (\<exists>t4. Visit InvokeCopy oldModel
               (t\<lparr>m_context := context, m_model := Model_empty, m_elementToElementMap := fmempty\<rparr>) =
             Inr t4 \<and>
            m_elementToElementMap t' = m_elementToElementMap t4 \<and> newModel = m_model t4)) \<and>
   (\<forall>newModel t'. wf_Model oldModel \<and> CopyModel (Copy_into NDEBUG) oldModel context t = Inr (newModel, t') \<longrightarrow>
      (\<forall>e \<in> set (concat (map output_elements oldModel)).
         \<exists>e' \<in> set (concat (map output_elements newModel)).
           fmlookup (m_elementToElementMap t') e = Some e' \<and>
           GetCorrespondingOutputs NDEBUG t' [PortRange_of_element e] = Inr [PortRange_of_element e']) \<and>
      (\<forall>node \<in> set oldModel. \<forall>port \<in> set (GetOutputs node). 0 < Size port \<longrightarrow>
         GetCorrespondingOutputs_port NDEBUG t' port =
           Inr [PortRange (Some (rename_port (new_id oldModel (nextId t)) port)) 0 (Size port)]))"
proof (intro conjI allI impI)
  fix newModel t'
  assume "CopyModel InvokeCopy oldModel context t = Inr (newModel, t')"
  then show "\<exists>t4. Visit InvokeCopy oldModel
               (t\<lparr>m_context := context, m_model := Model_empty, m_elementToElementMap := fmempty\<rparr>) =
             Inr t4 \<and>
            m_elementToElementMap t' = m_elementToElementMap t4 \<and> newModel = m_model t4"
    by (auto simp add: CopyModel_def Let_def split: sum.splits)
next
  fix newModel t'
  assume h: "wf_Model oldModel \<and> CopyModel (Copy_into NDEBUG) oldModel context t = Inr (newModel, t')"
  let ?\<rho> = "new_id oldModel (nextId t)"
  from h CopyModel_Copy_into_run [where m = oldModel and ctx = "context" and t = t and NDEBUG = NDEBUG]
  have new: "newModel = map (clone_node ?\<rho>) oldModel" and inv: "copied ?\<rho> oldModel t'"
    by auto
  show "\<forall>e \<in> set (concat (map output_elements oldModel)).
         \<exists>e' \<in> set (concat (map output_elements newModel)).
           fmlookup (m_elementToElementMap t') e = Some e' \<and>
           GetCorrespondingOutputs NDEBUG t' [PortRange_of_element e] = Inr [PortRange_of_element e']"
  proof
    fix e
    assume e: "e \<in> set (concat (map output_elements oldModel))"
    have "rename_element ?\<rho> e \<in> set (concat (map output_elements newModel))"
      unfolding new using e by (rule output_elements_clone_model)
    moreover have "fmlookup (m_elementToElementMap t') e = Some (rename_element ?\<rho> e)"
      using inv e by (auto simp add: copied_def)
    moreover have "GetCorrespondingOutputs NDEBUG t' [PortRange_of_element e] =
                   Inr [PortRange_of_element (rename_element ?\<rho> e)]"
      using inv e by (rule copied_resolves)
    ultimately show "\<exists>e' \<in> set (concat (map output_elements newModel)).
           fmlookup (m_elementToElementMap t') e = Some e' \<and>
           GetCorrespondingOutputs NDEBUG t' [PortRange_of_element e] = Inr [PortRange_of_element e']"
      by blast
  qed
  show "\<forall>node \<in> set oldModel. \<forall>port \<in> set (GetOutputs node). 0 < Size port \<longrightarrow>
         GetCorrespondingOutputs_port NDEBUG t' port =
           Inr [PortRange (Some (rename_port ?\<rho> port)) 0 (Size port)]"
    using inv by (intro ballI impI) (rule copied_resolves_port)
qed

text \<open>The output element of the sum node, resolved after the clone pass has returned.\<close>

theorem CopyModel_retains_map_witness:
  "wf_Model example_model \<and>
   (\<exists>newModel t'.
      CopyModel (Copy_into False) example_model accept_terminal fresh_transformer = Inr (newModel, t') \<and>
      (\<exists>e' \<in> set (concat (map output_elements newModel)).
         fmlookup (m_elementToElementMap t') (PortElementBase (Some sum_port) 0) = Some e' \<and>
         GetCorrespondingOutputs False t' [PortRange (Some sum_port) 0 1] = Inr [PortRange_of_element e']) \<and>
      GetCorrespondingOutputs_port False t' input_port =
        Inr [PortRange (Some (input_port\<lparr>GetNode := 2\<rparr>)) 0 2])"
proof -
  have wf: "wf_Model example_model" by code_simp
  have "thrown (CopyModel (Copy_into False) example_model accept_terminal fresh_transformer) = None"
    by code_simp
  then obtain newModel t' where
    c: "CopyModel (Copy_into False) example_model accept_terminal fresh_transformer = Inr (newModel, t')"
    by (cases "CopyModel (Copy_into False) example_model accept_terminal fresh_transformer")
       (auto simp add: thrown_def)
  note retained = CopyModel_retains_map
      [where InvokeCopy = "Copy_into False" and oldModel = example_model
         and t = fresh_transformer and NDEBUG = False]
  have e: "PortElementBase (Some sum_port) 0 \<in> set (concat (map output_elements example_model))"
    by code_simp
  from retained wf c e
  have "\<exists>e' \<in> set (concat (map output_elements newModel)).
         fmlookup (m_elementToElementMap t') (PortElementBase (Some sum_port) 0) = Some e' \<and>
         GetCorrespondingOutputs False t' [PortRange_of_element (PortElementBase (Some sum_port) 0)] =
           Inr [PortRange_of_element e']"
    by blast
  then have element: "\<exists>e' \<in> set (concat (map output_elements newModel)).
         fmlookup (m_elementToElementMap t') (PortElementBase (Some sum_port) 0) = Some e' \<and>
         GetCorrespondingOutputs False t' [PortRange (Some sum_port) 0 1] = Inr [PortRange_of_element e']"
    by (simp add: PortRange_of_element_def)
  have "input_node \<in> set example_model" "input_port \<in> set (GetOutputs input_node)"
    "0 < Size input_port"
    by (simp_all add: example_model_def input_node_def input_port_def)
  with retained wf c
  have "GetCorrespondingOutputs_port False t' input_port =
        Inr [PortRange (Some (rename_port (new_id example_model (nextId fresh_transformer)) input_port))
               0 (Size input_port)]"
    by blast
  moreover have "rename_port (new_id example_model (nextId fresh_transformer)) input_port =
                 input_port\<lparr>GetNode := 2\<rparr>"
    by code_simp
  moreover have "Size input_port = 2" by (simp add: input_port_def)
  ultimately have port: "GetCorrespondingOutputs_port False t' input_port =
        Inr [PortRange (Some (input_port\<lparr>GetNode := 2\<rparr>)) 0 2]"
    by simp
  show ?thesis
    by (intro conjI exI [of _ newModel] exI [of _ t']) (rule wf c element port)+
qed

section \<open>A transformer that runs more than one call\<close>

text \<open>
  The concatenation sends a key of the previous map through the map of the pass, so a
  reference whose images chain through the generations resolves to the end of the chain.
  \<open>RefineModel\<close> does not empty the map when it starts: the first generation moves the map
  the transformer holds aside as the previous map, and if it is not empty every generation
  keeps exactly its keys.
\<close>

lemma newElementToElementMap_lookup:
  "fmlookup (newElementToElementMap currentElementToElementMap passMap) old =
   map_option (index_or_default passMap) (fmlookup currentElementToElementMap old)"
  by (simp add: newElementToElementMap_def)

lemma newElementToElementMap_chain:
  assumes "fmlookup currentElementToElementMap old = Some mid" "fmlookup passMap mid = Some new"
  shows "fmlookup (newElementToElementMap currentElementToElementMap passMap) old = Some new"
  using assms by (simp add: newElementToElementMap_lookup index_or_default_def)

lemma RefinePass_map:
  assumes "RefinePass InvokeRefine t = Inr (didRefineAny, t')"
  shows "\<exists>t4. Visit (refine_visitor InvokeRefine) (m_model t)
               (False, t\<lparr>m_model := Model_empty, m_elementToElementMap := fmempty,
                          m_isModelCompilable := True\<rparr>) = Inr (didRefineAny, t4) \<and>
              m_model t' = m_model t4 \<and>
              m_elementToElementMap t' =
                (if fmdom (m_elementToElementMap t) \<noteq> {||}
                 then newElementToElementMap (m_elementToElementMap t) (m_elementToElementMap t4)
                 else m_elementToElementMap t4)"
  using assms
  by (auto simp add: RefinePass_def Let_def split: sum.splits if_splits)

lemma RefineModel_loop_stale_keys:
  assumes "fmdom (m_elementToElementMap t) \<noteq> {||}"
    "RefineModel_loop InvokeRefine cap context iterationCount t = Inr t'"
  shows "fmdom (m_elementToElementMap t') = fmdom (m_elementToElementMap t)"
  using assms
proof (induction InvokeRefine cap "context" iterationCount t rule: RefineModel_loop.induct)
  case (1 InvokeRefine cap ctx iterationCount t)
  from "1.prems"(2) obtain d t1 where pass: "RefinePass InvokeRefine t = Inr (d, t1)"
    by (subst (asm) RefineModel_loop.simps) (auto split: sum.splits)
  from RefinePass_map [OF pass] "1.prems"(1)
  have dom1: "fmdom (m_elementToElementMap t1) = fmdom (m_elementToElementMap t)"
    by (auto simp add: newElementToElementMap_def)
  show ?case
  proof (cases "\<not> d \<or> cap \<le> iterationCount + 1 \<or> m_isModelCompilable t1")
    case True
    with "1.prems"(2) pass have "t' = t1"
      by (subst (asm) RefineModel_loop.simps) (auto split: if_splits)
    with dom1 show ?thesis by simp
  next
    case False
    with "1.prems"(2) pass
    have next_gen: "RefineModel_loop InvokeRefine cap ctx (iterationCount + 1) t1 = Inr t'"
      by (subst (asm) RefineModel_loop.simps) (auto split: if_splits)
    have "fmdom (m_elementToElementMap t') = fmdom (m_elementToElementMap t1)"
      using False "1.prems"(1) dom1 next_gen
      by (intro "1.IH" [OF pass refl]) auto
    with dom1 show ?thesis by simp
  qed
qed

lemma RefineModel_stale_keys:
  assumes "fmdom (m_elementToElementMap t) \<noteq> {||}"
    "RefineModel InvokeRefine cap oldModel context t = Inr (newModel, t')"
  shows "fmdom (m_elementToElementMap t') = fmdom (m_elementToElementMap t)"
proof -
  let ?t2 = "t\<lparr>m_context := context, m_model := oldModel\<rparr>"
  from assms(2) obtain t3 where loop: "RefineModel_loop InvokeRefine cap context 0 ?t2 = Inr t3"
    and t': "t' = t3\<lparr>m_context := TransformContext_default\<rparr>"
    by (auto simp add: RefineModel_def Let_def split: sum.splits)
  from RefineModel_loop_stale_keys [OF _ loop] assms(1) t' show ?thesis by simp
qed

text \<open>
  Claim C1.  The element map is cleared at the start of every top-level \<open>CopyModel\<close> or
  \<open>RefineModel\<close> call, so that no entry left by an earlier call can influence the map the
  current call composes or exposes.  \<open>CopyModel\<close> does so (line 46).  \<open>RefineModel\<close>
  empties the member only after line 67 has moved its content aside as the previous
  generation's map: after a clone pass on the example model, a refinement of the same
  model with the same transformer exposes the default-constructed element as the image of
  the sum node's output element; with the map emptied first, the image is the output
  element of node 5 of the returned model.
\<close>

theorem RefineModel_carries_map_of_previous_call:
  "thrown (CopyModel (Copy_into NDEBUG) example_model TransformContext_default fresh_transformer) = None \<and>
   exposed_image
     (RefineModel (Refine_no_change NDEBUG) 10 example_model accept_terminal
        (transformer_after_copy NDEBUG example_model))
     (PortElementBase (Some sum_port) 0) = Some PortElementBase_default \<and>
   exposed_image
     (RefineModel (Refine_no_change NDEBUG) 10 example_model accept_terminal
        (with_empty_map (transformer_after_copy NDEBUG example_model)))
     (PortElementBase (Some sum_port) 0) = Some (PortElementBase (Some (sum_port\<lparr>GetNode := 5\<rparr>)) 0) \<and>
   map_option (map GetId)
     (returned_model (RefineModel (Refine_no_change NDEBUG) 10 example_model accept_terminal
        (transformer_after_copy NDEBUG example_model))) = Some [4, 5]"
proof -
  let ?outcome = "\<lambda>NDEBUG.
   thrown (CopyModel (Copy_into NDEBUG) example_model TransformContext_default fresh_transformer) = None \<and>
   exposed_image
     (RefineModel (Refine_no_change NDEBUG) 10 example_model accept_terminal
        (transformer_after_copy NDEBUG example_model))
     (PortElementBase (Some sum_port) 0) = Some PortElementBase_default \<and>
   exposed_image
     (RefineModel (Refine_no_change NDEBUG) 10 example_model accept_terminal
        (with_empty_map (transformer_after_copy NDEBUG example_model)))
     (PortElementBase (Some sum_port) 0) = Some (PortElementBase (Some (sum_port\<lparr>GetNode := 5\<rparr>)) 0) \<and>
   map_option (map GetId)
     (returned_model (RefineModel (Refine_no_change NDEBUG) 10 example_model accept_terminal
        (transformer_after_copy NDEBUG example_model))) = Some [4, 5]"
  have compiled_out: "?outcome True" by (intro conjI; code_simp)
  have compiled_in: "?outcome False" by (intro conjI; code_simp)
  show ?thesis
  proof (cases NDEBUG)
    case True
    with compiled_out show ?thesis by simp
  next
    case False
    with compiled_in show ?thesis by simp
  qed
qed

text \<open>
  Claim C4.  Across the generations of a refinement the exposed map is the concatenation
  of the generations' maps, so that a reference of the original model resolves to an
  element of the final model.  On a node three levels deep and a transformer that has not
  run before, the original output element resolves to the output element of node 4, the
  node of the third generation.  After a clone pass on the same model with the same
  transformer, the same refinement exposes the default-constructed element instead: the
  first generation is concatenated onto the map of the clone pass.
\<close>

theorem RefineModel_generations_lose_original_reference:
  "exposed_image
     (RefineModel (Refine_by_level NDEBUG) 10 [level_node ''ddd''] accept_terminal fresh_transformer)
     (PortElementBase (Some level_port) 0) = Some (PortElementBase (Some (level_port\<lparr>GetNode := 4\<rparr>)) 0) \<and>
   map_option (map GetOutputs)
     (returned_model
        (RefineModel (Refine_by_level NDEBUG) 10 [level_node ''ddd''] accept_terminal fresh_transformer)) =
     Some [[level_port\<lparr>GetNode := 4\<rparr>]] \<and>
   thrown (CopyModel (Copy_into NDEBUG) [level_node ''ddd''] TransformContext_default fresh_transformer) = None \<and>
   exposed_image
     (RefineModel (Refine_by_level NDEBUG) 10 [level_node ''ddd''] accept_terminal
        (transformer_after_copy NDEBUG [level_node ''ddd'']))
     (PortElementBase (Some level_port) 0) = Some PortElementBase_default \<and>
   map_option (map GetOutputs)
     (returned_model
        (RefineModel (Refine_by_level NDEBUG) 10 [level_node ''ddd''] accept_terminal
           (transformer_after_copy NDEBUG [level_node ''ddd'']))) =
     Some [[level_port\<lparr>GetNode := 5\<rparr>]]"
proof -
  let ?outcome = "\<lambda>NDEBUG.
   exposed_image
     (RefineModel (Refine_by_level NDEBUG) 10 [level_node ''ddd''] accept_terminal fresh_transformer)
     (PortElementBase (Some level_port) 0) = Some (PortElementBase (Some (level_port\<lparr>GetNode := 4\<rparr>)) 0) \<and>
   map_option (map GetOutputs)
     (returned_model
        (RefineModel (Refine_by_level NDEBUG) 10 [level_node ''ddd''] accept_terminal fresh_transformer)) =
     Some [[level_port\<lparr>GetNode := 4\<rparr>]] \<and>
   thrown (CopyModel (Copy_into NDEBUG) [level_node ''ddd''] TransformContext_default fresh_transformer) = None \<and>
   exposed_image
     (RefineModel (Refine_by_level NDEBUG) 10 [level_node ''ddd''] accept_terminal
        (transformer_after_copy NDEBUG [level_node ''ddd'']))
     (PortElementBase (Some level_port) 0) = Some PortElementBase_default \<and>
   map_option (map GetOutputs)
     (returned_model
        (RefineModel (Refine_by_level NDEBUG) 10 [level_node ''ddd''] accept_terminal
           (transformer_after_copy NDEBUG [level_node ''ddd'']))) =
     Some [[level_port\<lparr>GetNode := 5\<rparr>]]"
  have compiled_out: "?outcome True" by (intro conjI; code_simp)
  have compiled_in: "?outcome False" by (intro conjI; code_simp)
  show ?thesis
  proof (cases NDEBUG)
    case True
    with compiled_out show ?thesis by simp
  next
    case False
    with compiled_in show ?thesis by simp
  qed
qed

end
